theory Spec2Isabelle
  imports Main "HOL-Library.Multiset"
begin

section \<open>The Scene Manager of \<^verbatim>\<open>src/phaser/src/scene/SceneManager.ts\<close>\<close>

text \<open>
  The manager owns an ordered array of Scene objects, a key table, three work lists
  (\<^verbatim>\<open>_pending\<close>, \<^verbatim>\<open>_start\<close>, \<^verbatim>\<open>_queue\<close>) and two flags. Scene objects are shared between
  the array and the key table, so they live in a store addressed by references; the
  manager's methods become functions from the state of that world to its next state.
  What the manager asks of its collaborators (the per-scene Systems object, the loader,
  the user's callbacks, the console) is recorded, in call order, in a trace.
\<close>

subsection \<open>Values\<close>

type_synonym sref = nat

text \<open>
  The values that reach a \<^verbatim>\<open>key\<close>, \<^verbatim>\<open>keyB\<close> or \<^verbatim>\<open>data\<close> parameter: \<^verbatim>\<open>undefined\<close>, a string,
  an object that is not a Scene (named by its identity), or a Scene object.
\<close>

datatype jsval = Undefined | Str string | Obj nat | SceneObj sref

text \<open>The object a default parameter \<^verbatim>\<open>data = {}\<close> creates.\<close>

definition empty_obj :: jsval where
  "empty_obj = Obj 0"

text \<open>A default parameter applies exactly when the argument is \<^verbatim>\<open>undefined\<close>.\<close>

definition default_data :: "jsval \<Rightarrow> jsval" where
  "default_data d = (if d = Undefined then empty_obj else d)"

text \<open>The property name a value turns into when it indexes an object.\<close>

fun prop_name :: "jsval \<Rightarrow> string" where
  "prop_name Undefined = ''undefined''"
| "prop_name (Str s) = s"
| "prop_name (Obj n) = ''[object Object]''"
| "prop_name (SceneObj r) = ''[object Object]''"

subsection \<open>Scene status\<close>

text \<open>
  Modelled from the spec: the file \<^verbatim>\<open>./const\<close> that \<^verbatim>\<open>CONST\<close> is required from is missing.
  The spec gives the status values as the ordered enumeration PENDING, INIT, START,
  LOADING, CREATING, RUNNING, PAUSED, SLEEPING, SHUTDOWN, DESTROYED; the table that
  \<^verbatim>\<open>dump\<close> indexes by status lists the same names in the same order, from index 0.
\<close>

definition PENDING :: nat where "PENDING = 0"
definition INIT :: nat where "INIT = 1"
definition START :: nat where "START = 2"
definition LOADING :: nat where "LOADING = 3"
definition CREATING :: nat where "CREATING = 4"
definition RUNNING :: nat where "RUNNING = 5"
definition PAUSED :: nat where "PAUSED = 6"
definition SLEEPING :: nat where "SLEEPING = 7"
definition SHUTDOWN :: nat where "SHUTDOWN = 8"
definition DESTROYED :: nat where "DESTROYED = 9"

subsection \<open>Scene objects\<close>

text \<open>
  One record per Scene object: the fields of \<^verbatim>\<open>scene.sys.settings\<close> the manager reads or
  writes, which of the optional callbacks the scene defines, and what the manager can
  see of the scene's Systems object: whether \<^verbatim>\<open>sys.load\<close> is set, what the loader's
  \<^verbatim>\<open>addPack\<close> answers for the scene's pack, whether \<^verbatim>\<open>sys.scenePlugin._target\<close> is set, and
  whether \<^verbatim>\<open>sys.sceneUpdate\<close> holds the scene's \<^verbatim>\<open>update\<close> (\<open>True\<close>) or \<^verbatim>\<open>NOOP\<close> (\<open>False\<close>).
\<close>

record scene =
  settings_key :: string
  status :: nat
  active :: bool
  visible :: bool
  isTransition :: bool
  settings_data :: jsval
  pack :: "nat option"
  has_init :: bool
  has_preload :: bool
  has_create :: bool
  has_update :: bool
  load :: bool
  addPack_result :: bool
  plugin_target :: bool
  sceneUpdate :: bool

subsection \<open>Scene configurations\<close>

text \<open>
  The shapes \<^verbatim>\<open>add\<close> and \<^verbatim>\<open>bootQueue\<close> tell apart with \<^verbatim>\<open>instanceof Scene\<close> and \<^verbatim>\<open>typeof\<close>:
  \<^item> \<open>SceneInstance r\<close>: a Scene instance, the object \<open>r\<close> of the store;
  \<^item> \<open>ConfigObject k s\<close>: a plain descriptor object; \<open>k\<close> is its own property \<^verbatim>\<open>key\<close>
    (\<open>None\<close> when it has none) and \<open>s\<close> the Scene that \<^verbatim>\<open>new Scene(sceneConfig)\<close> and the
    copying of the descriptor's callbacks yield, apart from its key;
  \<^item> \<open>SceneClass s\<close>: a function whose \<^verbatim>\<open>new\<close> yields the Scene \<open>s\<close>;
  \<^item> \<open>PlainFunction s\<close>: a function whose \<^verbatim>\<open>new\<close> yields an object that is no Scene;
    \<open>s\<close> is that object with the fresh Systems the manager gives it, apart from its key;
  \<^item> \<open>NotAScene\<close>: any other value.
  The constructors of \<^verbatim>\<open>Scene\<close> and \<^verbatim>\<open>Systems\<close> are not part of the manager; what they
  build is taken as given.
\<close>

datatype scene_config =
    SceneInstance sref
  | ConfigObject "string option" scene
  | SceneClass scene
  | PlainFunction scene
  | NotAScene

record pending_entry =
  pe_key :: string
  pe_scene :: scene_config
  pe_autoStart :: bool
  pe_data :: jsval

subsection \<open>The operation queue\<close>

text \<open>
  The operations of \<^verbatim>\<open>TSceneOp\<close>, without \<^verbatim>\<open>'add'\<close>: no method of the manager queues an
  \<^verbatim>\<open>add\<close>, and its parameters (a configuration, a boolean) are not what the fields of a
  queue entry hold.
\<close>

datatype scene_op =
    OpRemove | OpStart | OpStop | OpPause | OpResume | OpSleep | OpWake | OpRun
  | OpSwitch | OpBringToTop | OpSendToBack | OpMoveDown | OpMoveUp | OpMoveAbove
  | OpMoveBelow | OpSwapPosition

record queue_entry =
  qop :: scene_op
  keyA :: jsval
  keyB :: jsval
  qdata :: jsval

subsection \<open>What the collaborators are asked to do\<close>

datatype loader_callback = LoadComplete | PayloadComplete

datatype scene_event = TRANSITION_INIT | TRANSITION_START | CREATE

datatype event =
    Warn string
  | SysInit sref
  | SysStart sref jsval
  | SysShutdown sref jsval
  | SysPause sref jsval
  | SysResume sref jsval
  | SysSleep sref jsval
  | SysWake sref jsval
  | SysDestroy sref
  | SysStep sref int int
  | PluginStep sref int int
  | SysRender sref nat
  | CallInit sref jsval
  | CallPreload sref
  | CallCreate sref jsval
  | Emit sref scene_event
  | LoaderReset sref
  | LoaderAddPack sref "nat option"
  | LoaderOnce sref loader_callback
  | LoaderOff sref loader_callback
  | LoaderStart sref

subsection \<open>The manager and its world\<close>

record boot_data =
  bd_autoStart :: bool
  bd_data :: jsval

text \<open>
  The fields \<^verbatim>\<open>_pending\<close>, \<^verbatim>\<open>_start\<close>, \<^verbatim>\<open>_queue\<close> and \<^verbatim>\<open>_data\<close> are \<open>u_pending\<close>, \<open>u_start\<close>,
  \<open>u_queue\<close> and \<open>u_data\<close>. An entry of \<open>scenes\<close> is \<open>None\<close> where the array holds \<^verbatim>\<open>null\<close>.
  \<open>heap\<close> is the store of Scene objects and \<open>next_ref\<close> the reference the next
  \<^verbatim>\<open>new Scene\<close> receives.
\<close>

record world =
  keys :: "string \<Rightarrow> sref option"
  scenes :: "sref option list"
  u_pending :: "pending_entry list"
  u_start :: "string list"
  u_queue :: "queue_entry list"
  u_data :: "string \<Rightarrow> boot_data option"
  isProcessing :: bool
  isBooted :: bool
  systemScene :: "sref option"
  heap :: "sref \<Rightarrow> scene"
  next_ref :: sref
  trace :: "event list"

definition emit :: "event \<Rightarrow> world \<Rightarrow> world" where
  "emit e w = w\<lparr>trace := trace w @ [e]\<rparr>"

definition upd_scene :: "sref \<Rightarrow> (scene \<Rightarrow> scene) \<Rightarrow> world \<Rightarrow> world" where
  "upd_scene r f w = w\<lparr>heap := (heap w)(r := f (heap w r))\<rparr>"

subsection \<open>Array primitives\<close>

text \<open>\<^verbatim>\<open>Array.prototype.indexOf\<close>: the first index holding the value, or -1.\<close>

fun indexOf :: "'a list \<Rightarrow> 'a \<Rightarrow> int" where
  "indexOf [] x = - 1"
| "indexOf (y # ys) x =
     (if y = x then 0 else (let i = indexOf ys x in if i = - 1 then - 1 else i + 1))"

text \<open>
  The position \<^verbatim>\<open>splice(start, ...)\<close> works at: a negative start counts from the end, and
  the result is clamped to the array.
\<close>

definition splice_start :: "nat \<Rightarrow> int \<Rightarrow> nat" where
  "splice_start n i = (if i < 0 then nat (max (int n + i) 0) else min (nat i) n)"

text \<open>\<^verbatim>\<open>xs.splice(i, 1)\<close> and \<^verbatim>\<open>xs.splice(i, 0, v)\<close>.\<close>

definition splice_remove :: "'a list \<Rightarrow> int \<Rightarrow> 'a list" where
  "splice_remove xs i = (let s = splice_start (length xs) i in take s xs @ drop (Suc s) xs)"

definition splice_insert :: "'a list \<Rightarrow> int \<Rightarrow> 'a \<Rightarrow> 'a list" where
  "splice_insert xs i v = (let s = splice_start (length xs) i in take s xs @ v # drop s xs)"

text \<open>
  \<^verbatim>\<open>xs[i] = v\<close> on the scene array. Inside the array it replaces the element. At a negative
  index it creates a property of that name on the array object, which is no element and
  does not count in \<^verbatim>\<open>length\<close>. At or beyond \<^verbatim>\<open>length\<close> the array grows, and the slots in
  between are empty.
\<close>

definition assign_at :: "'a option list \<Rightarrow> int \<Rightarrow> 'a option \<Rightarrow> 'a option list" where
  "assign_at xs i v =
     (if i < 0 then xs
      else if i < int (length xs) then xs[nat i := v]
      else xs @ replicate (nat i - length xs) None @ [v])"

text \<open>\<^verbatim>\<open>xs[i]\<close>; outside the array it is \<^verbatim>\<open>undefined\<close>, which reads as \<open>None\<close>.\<close>

definition read_at :: "'a option list \<Rightarrow> int \<Rightarrow> 'a option" where
  "read_at xs i = (if 0 \<le> i \<and> i < int (length xs) then xs ! nat i else None)"

subsection \<open>Lookup\<close>

text \<open>
  \<^verbatim>\<open>getScene\<close>: a string is looked up in \<open>keys\<close>; any other value is compared with the
  entries of \<open>scenes\<close>, which only a Scene object can equal. The result \<open>None\<close> is \<^verbatim>\<open>null\<close>.
  The key table is modelled by its own properties only: keys that name a property
  inherited from \<^verbatim>\<open>Object.prototype\<close> are outside the model.
\<close>

definition getScene :: "world \<Rightarrow> jsval \<Rightarrow> sref option" where
  "getScene w key =
     (case key of
        Str s \<Rightarrow> keys w s
      | SceneObj r \<Rightarrow> (if Some r \<in> set (scenes w) then Some r else None)
      | _ \<Rightarrow> None)"

definition getAt :: "world \<Rightarrow> int \<Rightarrow> sref option" where
  "getAt w index = read_at (scenes w) index"

definition getIndex :: "world \<Rightarrow> jsval \<Rightarrow> int" where
  "getIndex w key = indexOf (scenes w) (getScene w key)"

subsection \<open>Deferring an operation\<close>

definition queueOp :: "world \<Rightarrow> scene_op \<Rightarrow> jsval \<Rightarrow> jsval \<Rightarrow> jsval \<Rightarrow> world" where
  "queueOp w opn kA kB data =
     w\<lparr>u_queue := u_queue w @ [\<lparr>qop = opn, keyA = kA, keyB = kB, qdata = default_data data\<rparr>]\<rparr>"

subsection \<open>Ordering operations\<close>

text \<open>Each of them ends in \<^verbatim>\<open>return this\<close> on every path: the result is the manager.\<close>

definition bringToTop :: "world \<Rightarrow> jsval \<Rightarrow> world" where
  "bringToTop w key =
     (if isProcessing w then queueOp w OpBringToTop key Undefined Undefined
      else
        let index = getIndex w key in
        if index \<noteq> - 1 \<and> index < int (length (scenes w)) then
          let scene = getScene w key in
          w\<lparr>scenes := splice_remove (scenes w) index @ [scene]\<rparr>
        else w)"

definition sendToBack :: "world \<Rightarrow> jsval \<Rightarrow> world" where
  "sendToBack w key =
     (if isProcessing w then queueOp w OpSendToBack key Undefined Undefined
      else
        let index = getIndex w key in
        if index \<noteq> - 1 \<and> index > 0 then
          let scene = getScene w key in
          w\<lparr>scenes := scene # splice_remove (scenes w) index\<rparr>
        else w)"

definition moveDown :: "world \<Rightarrow> jsval \<Rightarrow> world" where
  "moveDown w key =
     (if isProcessing w then queueOp w OpMoveDown key Undefined Undefined
      else
        let indexA = getIndex w key in
        if indexA > 0 then
          let indexB = indexA - 1;
              sceneA = getScene w key;
              sceneB = getAt w indexB
          in w\<lparr>scenes := assign_at (assign_at (scenes w) indexA sceneB) indexB sceneA\<rparr>
        else w)"

definition moveUp :: "world \<Rightarrow> jsval \<Rightarrow> world" where
  "moveUp w key =
     (if isProcessing w then queueOp w OpMoveUp key Undefined Undefined
      else
        let indexA = getIndex w key in
        if indexA < int (length (scenes w)) - 1 then
          let indexB = indexA + 1;
              sceneA = getScene w key;
              sceneB = getAt w indexB
          in w\<lparr>scenes := assign_at (assign_at (scenes w) indexA sceneB) indexB sceneA\<rparr>
        else w)"

text \<open>\<^verbatim>\<open>Number(b)\<close> of a boolean.\<close>

definition Number :: "bool \<Rightarrow> int" where
  "Number b = (if b then 1 else 0)"

definition moveAbove :: "world \<Rightarrow> jsval \<Rightarrow> jsval \<Rightarrow> world" where
  "moveAbove w kA kB =
     (if kA = kB then w
      else if isProcessing w then queueOp w OpMoveAbove kA kB Undefined
      else
        let indexA = getIndex w kA;
            indexB = getIndex w kB
        in
        if indexA \<noteq> - 1 \<and> indexB \<noteq> - 1 \<and> indexB < indexA then
          let tempScene = getAt w indexB;
              removed = splice_remove (scenes w) indexB
          in w\<lparr>scenes := splice_insert removed (indexA + Number (indexB > indexA)) tempScene\<rparr>
        else w)"

definition moveBelow :: "world \<Rightarrow> jsval \<Rightarrow> jsval \<Rightarrow> world" where
  "moveBelow w kA kB =
     (if kA = kB then w
      else if isProcessing w then queueOp w OpMoveBelow kA kB Undefined
      else
        let indexA = getIndex w kA;
            indexB = getIndex w kB
        in
        if indexA \<noteq> - 1 \<and> indexB \<noteq> - 1 \<and> indexB > indexA then
          let tempScene = getAt w indexB;
              removed = splice_remove (scenes w) indexB
          in
          if indexA = 0 then w\<lparr>scenes := tempScene # removed\<rparr>
          else w\<lparr>scenes := splice_insert removed (indexA - Number (indexB < indexA)) tempScene\<rparr>
        else w)"

definition swapPosition :: "world \<Rightarrow> jsval \<Rightarrow> jsval \<Rightarrow> world" where
  "swapPosition w kA kB =
     (if kA = kB then w
      else if isProcessing w then queueOp w OpSwapPosition kA kB Undefined
      else
        let indexA = getIndex w kA;
            indexB = getIndex w kB
        in
        if indexA \<noteq> indexB \<and> indexA \<noteq> - 1 \<and> indexB \<noteq> - 1 then
          let tempScene = getAt w indexA in
          w\<lparr>scenes := assign_at (assign_at (scenes w) indexA (read_at (scenes w) indexB))
                         indexB tempScene\<rparr>
        else w)"

subsection \<open>The Systems object of a scene\<close>

text \<open>
  The class \<^verbatim>\<open>Systems\<close> (\<^verbatim>\<open>./Systems\<close>) is missing. The spec describes its lifecycle
  operations by what they do to \<^verbatim>\<open>settings.status\<close>, and its predicates as pure predicates
  over the status and the transition flag. Every call is recorded in the trace.
\<close>

text \<open>
  Modelled from the spec: \<^verbatim>\<open>Systems.init\<close> is missing. It binds the scene to the runtime
  and leaves it admitted and idle; INIT is the first status of the idle range.
\<close>

definition sys_init :: "world \<Rightarrow> sref \<Rightarrow> world" where
  "sys_init w r = upd_scene r (\<lambda>s. s\<lparr>status := INIT\<rparr>) (emit (SysInit r) w)"

text \<open>
  Modelled from the spec: \<^verbatim>\<open>Systems.start\<close> is missing. It sets status START, replaces
  \<^verbatim>\<open>settings.data\<close> and resets the per-frame update hook to a no-op.
\<close>

definition sys_start :: "world \<Rightarrow> sref \<Rightarrow> jsval \<Rightarrow> world" where
  "sys_start w r data =
     upd_scene r (\<lambda>s. s\<lparr>status := START, settings_data := data, sceneUpdate := False\<rparr>)
       (emit (SysStart r data) w)"

text \<open>Modelled from the spec: \<^verbatim>\<open>Systems.shutdown\<close> is missing. It sets status SHUTDOWN.\<close>

definition sys_shutdown :: "world \<Rightarrow> sref \<Rightarrow> jsval \<Rightarrow> world" where
  "sys_shutdown w r data = upd_scene r (\<lambda>s. s\<lparr>status := SHUTDOWN\<rparr>) (emit (SysShutdown r data) w)"

text \<open>
  Modelled from the spec: \<^verbatim>\<open>Systems.pause\<close> is missing. It takes a RUNNING scene to PAUSED
  and is a no-op in any other state.
\<close>

definition sys_pause :: "world \<Rightarrow> sref \<Rightarrow> jsval \<Rightarrow> world" where
  "sys_pause w r data =
     upd_scene r (\<lambda>s. if status s = RUNNING then s\<lparr>status := PAUSED\<rparr> else s)
       (emit (SysPause r data) w)"

text \<open>
  Modelled from the spec: \<^verbatim>\<open>Systems.resume\<close> is missing. It takes a PAUSED scene to RUNNING
  and is a no-op in any other state.
\<close>

definition sys_resume :: "world \<Rightarrow> sref \<Rightarrow> jsval \<Rightarrow> world" where
  "sys_resume w r data =
     upd_scene r (\<lambda>s. if status s = PAUSED then s\<lparr>status := RUNNING\<rparr> else s)
       (emit (SysResume r data) w)"

text \<open>
  Modelled from the spec: \<^verbatim>\<open>Systems.sleep\<close> is missing. It toggles from the active state
  RUNNING to SLEEPING and keeps everything else of the scene.
\<close>

definition sys_sleep :: "world \<Rightarrow> sref \<Rightarrow> jsval \<Rightarrow> world" where
  "sys_sleep w r data =
     upd_scene r (\<lambda>s. if status s = RUNNING then s\<lparr>status := SLEEPING\<rparr> else s)
       (emit (SysSleep r data) w)"

text \<open>
  Modelled from the spec: \<^verbatim>\<open>Systems.wake\<close> is missing. It toggles from SLEEPING back to
  RUNNING and keeps everything else of the scene.
\<close>

definition sys_wake :: "world \<Rightarrow> sref \<Rightarrow> jsval \<Rightarrow> world" where
  "sys_wake w r data =
     upd_scene r (\<lambda>s. if status s = SLEEPING then s\<lparr>status := RUNNING\<rparr> else s)
       (emit (SysWake r data) w)"

text \<open>Modelled from the spec: \<^verbatim>\<open>Systems.destroy\<close> is missing. It sets status DESTROYED.\<close>

definition sys_destroy :: "world \<Rightarrow> sref \<Rightarrow> world" where
  "sys_destroy w r = upd_scene r (\<lambda>s. s\<lparr>status := DESTROYED\<rparr>) (emit (SysDestroy r) w)"

text \<open>
  Modelled from the spec: \<^verbatim>\<open>Systems.isSleeping\<close> is missing; a pure predicate over the
  status.
\<close>

definition sys_isSleeping :: "scene \<Rightarrow> bool" where
  "sys_isSleeping s = (status s = SLEEPING)"

text \<open>
  Modelled from the spec: \<^verbatim>\<open>Systems.isPaused\<close> is missing; a pure predicate over the
  status.
\<close>

definition sys_isPaused :: "scene \<Rightarrow> bool" where
  "sys_isPaused s = (status s = PAUSED)"

text \<open>
  Modelled from the spec: \<^verbatim>\<open>Systems.isTransitioning\<close> is missing; a pure predicate over
  the transition flag of the settings.
\<close>

definition sys_isTransitioning :: "scene \<Rightarrow> bool" where
  "sys_isTransitioning s = isTransition s"

subsection \<open>Errors\<close>

text \<open>
  \<open>DuplicateKey k\<close> is \<^verbatim>\<open>Error('Cannot add Scene with duplicate key: ' + k)\<close>; \<open>TypeError\<close> is
  what reading \<^verbatim>\<open>.sys\<close> of \<^verbatim>\<open>null\<close> or \<^verbatim>\<open>undefined\<close> raises. A throw does not undo what was
  done before it, so an error carries the world as it is when raised.
\<close>

datatype error = DuplicateKey string | TypeError

subsection \<open>Booting and creating a scene\<close>

text \<open>
  The callbacks \<^verbatim>\<open>init\<close>, \<^verbatim>\<open>preload\<close> and \<^verbatim>\<open>create\<close> belong to the user. The model
  records that they are called, and with what, and covers the callbacks that do not call
  back into the manager: the test for DESTROYED after \<^verbatim>\<open>create\<close> is kept as the source
  has it.
\<close>

definition create :: "world \<Rightarrow> sref \<Rightarrow> world" where
  "create w r =
     (let w1 = (if has_create (heap w r) then
                  let wa = upd_scene r (\<lambda>s. s\<lparr>status := CREATING\<rparr>) w
                  in emit (CallCreate r (settings_data (heap wa r))) wa
                else w)
      in
      if has_create (heap w r) \<and> status (heap w1 r) = DESTROYED then w1
      else
        let w2 = (if isTransition (heap w1 r) then emit (Emit r TRANSITION_START) w1 else w1);
            w3 = (if has_update (heap w2 r)
                  then upd_scene r (\<lambda>s. s\<lparr>sceneUpdate := True\<rparr>) w2 else w2);
            w4 = upd_scene r (\<lambda>s. s\<lparr>status := RUNNING\<rparr>) w3
        in emit (Emit r CREATE) w4)"

definition bootScene :: "world \<Rightarrow> sref \<Rightarrow> world" where
  "bootScene w r =
     (let w0 = upd_scene r (\<lambda>s. s\<lparr>sceneUpdate := False\<rparr>) w;
          w1 = (if has_init (heap w0 r) then
                  let wa = emit (CallInit r (settings_data (heap w0 r))) w0;
                      wb = upd_scene r (\<lambda>s. s\<lparr>status := INIT\<rparr>) wa
                  in if isTransition (heap wb r) then emit (Emit r TRANSITION_INIT) wb else wb
                else w0);
          loader = load (heap w1 r);
          w2 = (if loader then emit (LoaderReset r) w1 else w1)
      in
      if loader \<and> has_preload (heap w2 r) then
        let w3 = emit (CallPreload r) w2;
            w4 = upd_scene r (\<lambda>s. s\<lparr>status := LOADING\<rparr>) w3;
            w5 = emit (LoaderOnce r LoadComplete) w4
        in emit (LoaderStart r) w5
      else create w2 r)"

text \<open>The loader's COMPLETE callbacks; \<open>r\<close> is \<^verbatim>\<open>loader.scene\<close>.\<close>

definition loadComplete :: "world \<Rightarrow> sref \<Rightarrow> world" where
  "loadComplete w r = create w r"

definition payloadComplete :: "world \<Rightarrow> sref \<Rightarrow> world" where
  "payloadComplete w r = bootScene w r"

subsection \<open>Lifecycle operations\<close>

definition start :: "world \<Rightarrow> jsval \<Rightarrow> jsval \<Rightarrow> world" where
  "start w key data0 =
     (let data = default_data data0 in
      if \<not> isBooted w then
        w\<lparr>u_data := (u_data w)(prop_name key \<mapsto> \<lparr>bd_autoStart = True, bd_data = data\<rparr>)\<rparr>
      else
        case getScene w key of
          None \<Rightarrow> emit (Warn (''Scene key not found: '' @ prop_name key)) w
        | Some r \<Rightarrow>
            let st = status (heap w r) in
            if st \<ge> START \<and> st \<le> CREATING then w
            else if st \<ge> RUNNING \<and> st \<le> SLEEPING then
              let w1 = sys_shutdown w r Undefined;
                  w2 = upd_scene r (\<lambda>s. s\<lparr>sceneUpdate := False\<rparr>) w1;
                  w3 = sys_start w2 r data
              in bootScene w3 r
            else
              let w1 = upd_scene r (\<lambda>s. s\<lparr>sceneUpdate := False\<rparr>) w;
                  w2 = sys_start w1 r data;
                  loader = load (heap w2 r)
              in
              if loader \<and> pack (heap w2 r) \<noteq> None then
                let w3 = emit (LoaderReset r) w2;
                    w4 = emit (LoaderAddPack r (pack (heap w3 r))) w3
                in
                if addPack_result (heap w4 r) then
                  let w5 = upd_scene r (\<lambda>s. s\<lparr>status := LOADING\<rparr>) w4;
                      w6 = emit (LoaderOnce r PayloadComplete) w5
                  in emit (LoaderStart r) w6
                else bootScene w4 r
              else bootScene w2 r)"

definition pause :: "world \<Rightarrow> jsval \<Rightarrow> jsval \<Rightarrow> world" where
  "pause w key data0 =
     (let data = default_data data0 in
      case getScene w key of None \<Rightarrow> w | Some r \<Rightarrow> sys_pause w r data)"

definition resume :: "world \<Rightarrow> jsval \<Rightarrow> jsval \<Rightarrow> world" where
  "resume w key data0 =
     (let data = default_data data0 in
      case getScene w key of None \<Rightarrow> w | Some r \<Rightarrow> sys_resume w r data)"

definition sleep :: "world \<Rightarrow> jsval \<Rightarrow> jsval \<Rightarrow> world" where
  "sleep w key data0 =
     (let data = default_data data0 in
      case getScene w key of
        None \<Rightarrow> w
      | Some r \<Rightarrow> if \<not> sys_isTransitioning (heap w r) then sys_sleep w r data else w)"

definition wake :: "world \<Rightarrow> jsval \<Rightarrow> jsval \<Rightarrow> world" where
  "wake w key data0 =
     (let data = default_data data0 in
      case getScene w key of None \<Rightarrow> w | Some r \<Rightarrow> sys_wake w r data)"

definition stop :: "world \<Rightarrow> jsval \<Rightarrow> jsval \<Rightarrow> world" where
  "stop w key data0 =
     (let data = default_data data0 in
      case getScene w key of
        None \<Rightarrow> w
      | Some r \<Rightarrow>
          if \<not> sys_isTransitioning (heap w r) \<and> status (heap w r) \<noteq> SHUTDOWN then
            let w1 = (if load (heap w r)
                      then emit (LoaderOff r PayloadComplete) (emit (LoaderOff r LoadComplete) w)
                      else w)
            in sys_shutdown w1 r data
          else w)"

text \<open>
  \<^verbatim>\<open>run\<close>: for an unknown key the loop over \<^verbatim>\<open>_pending\<close> queues one \<^verbatim>\<open>start\<close> at the first
  entry with that key and breaks.
\<close>

definition run :: "world \<Rightarrow> jsval \<Rightarrow> jsval \<Rightarrow> world" where
  "run w key data0 =
     (let data = default_data data0 in
      case getScene w key of
        None \<Rightarrow>
          if \<exists>p \<in> set (u_pending w). Str (pe_key p) = key
          then queueOp w OpStart key data Undefined else w
      | Some r \<Rightarrow>
          if sys_isSleeping (heap w r) then sys_wake w r data
          else if sys_isPaused (heap w r) then sys_resume w r data
          else start w key data)"

definition isSleeping :: "world \<Rightarrow> jsval \<Rightarrow> bool option" where
  "isSleeping w key =
     (case getScene w key of None \<Rightarrow> None | Some r \<Rightarrow> Some (sys_isSleeping (heap w r)))"

text \<open>\<^verbatim>\<open>switch\<close>; \<^verbatim>\<open>if (this.isSleeping(to))\<close> takes the \<^verbatim>\<open>null\<close> of a missing scene as false.\<close>

definition switch :: "world \<Rightarrow> jsval \<Rightarrow> jsval \<Rightarrow> jsval \<Rightarrow> world" where
  "switch w from to data0 =
     (let data = default_data data0;
          sceneA = getScene w from;
          sceneB = getScene w to
      in
      if sceneA \<noteq> None \<and> sceneB \<noteq> None \<and> sceneA \<noteq> sceneB then
        let w1 = sleep w from Undefined in
        if isSleeping w1 to = Some True then wake w1 to data else start w1 to data
      else w)"

definition remove :: "world \<Rightarrow> jsval \<Rightarrow> world" where
  "remove w key =
     (if isProcessing w then queueOp w OpRemove key Undefined Undefined
      else
        case getScene w key of
          None \<Rightarrow> w
        | Some r \<Rightarrow>
            if sys_isTransitioning (heap w r) then w
            else
              let index = indexOf (scenes w) (Some r);
                  sceneKey = settings_key (heap w r)
              in
              if index > - 1 then
                let w1 = w\<lparr>keys := (keys w)(sceneKey := None),
                           scenes := splice_remove (scenes w) index\<rparr>;
                    w2 = (if indexOf (u_start w1) sceneKey > - 1
                          then w1\<lparr>u_start :=
                                 splice_remove (u_start w1) (indexOf (u_start w1) sceneKey)\<rparr>
                          else w1)
                in sys_destroy w2 r
              else w)"

subsection \<open>Admission\<close>

text \<open>\<^verbatim>\<open>new\<close>: the object gets the next reference of the store.\<close>

definition new_scene :: "scene \<Rightarrow> world \<Rightarrow> sref \<times> world" where
  "new_scene s w =
     (next_ref w, w\<lparr>heap := (heap w)(next_ref w := s), next_ref := Suc (next_ref w)\<rparr>)"

text \<open>\<^verbatim>\<open>getKey\<close>; \<^verbatim>\<open>this.keys.hasOwnProperty(key)\<close> is \<open>keys w key \<noteq> None\<close>.\<close>

definition getKey :: "world \<Rightarrow> string \<Rightarrow> scene_config \<Rightarrow> error \<times> world + string" where
  "getKey w key0 sceneConfig =
     (let key = (if key0 = [] then ''default'' else key0) in
      case sceneConfig of
        SceneClass s \<Rightarrow> Inr key
      | PlainFunction s \<Rightarrow> Inr key
      | _ \<Rightarrow>
          let key1 = (case sceneConfig of
                        SceneInstance r \<Rightarrow> settings_key (heap w r)
                      | ConfigObject (Some k) s \<Rightarrow> k
                      | _ \<Rightarrow> key)
          in if keys w key1 \<noteq> None then Inl (DuplicateKey key1, w) else Inr key1)"

definition createSceneFromInstance :: "world \<Rightarrow> string \<Rightarrow> sref \<Rightarrow> world" where
  "createSceneFromInstance w key newScene =
     (let configKey = settings_key (heap w newScene);
          w1 = (if configKey = [] then upd_scene newScene (\<lambda>s. s\<lparr>settings_key := key\<rparr>) w else w)
      in sys_init w1 newScene)"

text \<open>
  Modelled from the spec: the constructors of \<^verbatim>\<open>Scene\<close> and \<^verbatim>\<open>Systems\<close> and the settings
  they create are missing. The spec lists \<^verbatim>\<open>key\<close> among the optional keys of a descriptor
  and makes it the key of the scene's settings; a descriptor without one gives the empty
  key, which is what the manager tests for. \<open>s\<close> is the Scene built, apart from its key.
\<close>

definition Scene_from_config :: "string option \<Rightarrow> scene \<Rightarrow> scene" where
  "Scene_from_config okey s = s\<lparr>settings_key := (case okey of Some k \<Rightarrow> k | None \<Rightarrow> [])\<rparr>"

text \<open>
  \<^verbatim>\<open>createSceneFromObject\<close>. The callbacks are those of \<open>s\<close>; the properties under
  \<^verbatim>\<open>extend\<close> are not modelled.
\<close>

definition createSceneFromObject ::
  "world \<Rightarrow> string \<Rightarrow> string option \<Rightarrow> scene \<Rightarrow> sref \<times> world" where
  "createSceneFromObject w key okey s =
     (let (newScene, w1) = new_scene (Scene_from_config okey s) w;
          configKey = settings_key (heap w1 newScene);
          w2 = (if configKey \<noteq> [] then w1
                else upd_scene newScene (\<lambda>s. s\<lparr>settings_key := key\<rparr>) w1)
      in (newScene, sys_init w2 newScene))"

definition createSceneFromFunction ::
  "world \<Rightarrow> string \<Rightarrow> scene_config \<Rightarrow> error \<times> world + sref \<times> world" where
  "createSceneFromFunction w key sceneConfig =
     (case sceneConfig of
        SceneClass s \<Rightarrow>
          let (newScene, w1) = new_scene s w;
              configKey = settings_key (heap w1 newScene);
              key1 = (if configKey \<noteq> [] then configKey else key)
          in
          if keys w1 key1 \<noteq> None then Inl (DuplicateKey key1, w1)
          else Inr (newScene, createSceneFromInstance w1 key1 newScene)
      | PlainFunction s \<Rightarrow>
          let (newScene, w1) = new_scene (s\<lparr>settings_key := key\<rparr>) w
          in Inr (newScene, sys_init w1 newScene)
      | _ \<Rightarrow> Inl (TypeError, w))"

text \<open>
  \<^verbatim>\<open>add\<close>. The result \<open>None\<close> is \<^verbatim>\<open>null\<close>. For a value that is neither a Scene, an object
  nor a function, \<^verbatim>\<open>newScene\<close> stays \<^verbatim>\<open>undefined\<close> and \<^verbatim>\<open>newScene.sys\<close> raises.
\<close>

definition add ::
  "world \<Rightarrow> string \<Rightarrow> scene_config \<Rightarrow> bool \<Rightarrow> jsval \<Rightarrow> error \<times> world + sref option \<times> world" where
  "add w key sceneConfig autoStart data0 =
     (let data = default_data data0 in
      if isProcessing w \<or> \<not> isBooted w then
        let w1 = w\<lparr>u_pending := u_pending w @
                     [\<lparr>pe_key = key, pe_scene = sceneConfig,
                       pe_autoStart = autoStart, pe_data = data\<rparr>]\<rparr>;
            w2 = (if \<not> isBooted w1
                  then w1\<lparr>u_data := (u_data w1)(key \<mapsto> \<lparr>bd_autoStart = False, bd_data = data\<rparr>)\<rparr>
                  else w1)
        in Inr (None, w2)
      else
        case getKey w key sceneConfig of
          Inl e \<Rightarrow> Inl e
        | Inr key1 \<Rightarrow>
            (case (case sceneConfig of
                     SceneInstance r \<Rightarrow> Inr (r, createSceneFromInstance w key1 r)
                   | ConfigObject k s \<Rightarrow> Inr (createSceneFromObject w key1 (Some key1) s)
                   | SceneClass s \<Rightarrow> createSceneFromFunction w key1 sceneConfig
                   | PlainFunction s \<Rightarrow> createSceneFromFunction w key1 sceneConfig
                   | NotAScene \<Rightarrow> Inl (TypeError, w)) of
               Inl e \<Rightarrow> Inl e
             | Inr (newScene, w1) \<Rightarrow>
                 let w2 = upd_scene newScene (\<lambda>s. s\<lparr>settings_data := data\<rparr>) w1;
                     key2 = settings_key (heap w2 newScene);
                     w3 = w2\<lparr>keys := (keys w2)(key2 \<mapsto> newScene),
                              scenes := scenes w2 @ [Some newScene]\<rparr>
                 in
                 if autoStart \<or> active (heap w3 newScene) then
                   (if u_pending w3 \<noteq> []
                    then Inr (Some newScene, w3\<lparr>u_start := u_start w3 @ [key2]\<rparr>)
                    else Inr (Some newScene, start w3 (Str key2) Undefined))
                 else Inr (Some newScene, w3)))"

subsection \<open>Flushing the work lists\<close>

text \<open>\<^verbatim>\<open>this[entry.op](entry.keyA, entry.keyB, entry.data)\<close>: each method takes the leading
  arguments it declares.\<close>

definition dispatch :: "queue_entry \<Rightarrow> world \<Rightarrow> world" where
  "dispatch e w =
     (case qop e of
        OpRemove \<Rightarrow> remove w (keyA e)
      | OpStart \<Rightarrow> start w (keyA e) (keyB e)
      | OpStop \<Rightarrow> stop w (keyA e) (keyB e)
      | OpPause \<Rightarrow> pause w (keyA e) (keyB e)
      | OpResume \<Rightarrow> resume w (keyA e) (keyB e)
      | OpSleep \<Rightarrow> sleep w (keyA e) (keyB e)
      | OpWake \<Rightarrow> wake w (keyA e) (keyB e)
      | OpRun \<Rightarrow> run w (keyA e) (keyB e)
      | OpSwitch \<Rightarrow> switch w (keyA e) (keyB e) (qdata e)
      | OpBringToTop \<Rightarrow> bringToTop w (keyA e)
      | OpSendToBack \<Rightarrow> sendToBack w (keyA e)
      | OpMoveDown \<Rightarrow> moveDown w (keyA e)
      | OpMoveUp \<Rightarrow> moveUp w (keyA e)
      | OpMoveAbove \<Rightarrow> moveAbove w (keyA e) (keyB e)
      | OpMoveBelow \<Rightarrow> moveBelow w (keyA e) (keyB e)
      | OpSwapPosition \<Rightarrow> swapPosition w (keyA e) (keyB e))"


text \<open>
  The loops over \<^verbatim>\<open>_start\<close> and \<^verbatim>\<open>_queue\<close> test \<^verbatim>\<open>i\<close> against the length of the live array
  on every round, and the body may append to the array: they may not end. The value
  \<open>None\<close> is a loop that does not return.
\<close>

partial_function (option) start_loop :: "nat \<Rightarrow> world \<Rightarrow> world option" where
  "start_loop i w =
     (if i < length (u_start w)
      then start_loop (Suc i) (start w (Str (u_start w ! i)) Undefined)
      else Some w)"



subsection \<open>First boot\<close>

text \<open>
  One round of the loop of \<^verbatim>\<open>bootQueue\<close> over \<^verbatim>\<open>_pending\<close>: create the scene from the shape
  of its configuration, enter it under the key its settings hold, inject the data staged
  for that key, and note the key in \<^verbatim>\<open>_start\<close> when the entry, the staged data or the scene
  itself asks for a start. A configuration that is none of the three shapes leaves
  \<^verbatim>\<open>newScene\<close> \<^verbatim>\<open>undefined\<close>, and \<^verbatim>\<open>newScene.sys\<close> raises.
\<close>

definition boot_entry :: "pending_entry \<Rightarrow> world \<Rightarrow> error \<times> world + world" where
  "boot_entry entry w =
     (let key = pe_key entry;
          sceneConfig = pe_scene entry
      in
      case (case sceneConfig of
              SceneInstance r \<Rightarrow> Inr (r, createSceneFromInstance w key r)
            | ConfigObject k s \<Rightarrow> Inr (createSceneFromObject w key k s)
            | SceneClass s \<Rightarrow> createSceneFromFunction w key sceneConfig
            | PlainFunction s \<Rightarrow> createSceneFromFunction w key sceneConfig
            | NotAScene \<Rightarrow> Inl (TypeError, w)) of
        Inl e \<Rightarrow> Inl e
      | Inr (newScene, w1) \<Rightarrow>
          let key1 = settings_key (heap w1 newScene);
              w2 = w1\<lparr>keys := (keys w1)(key1 \<mapsto> newScene),
                       scenes := scenes w1 @ [Some newScene]\<rparr>;
              w3 = (case u_data w2 key1 of
                      None \<Rightarrow> w2
                    | Some staged \<Rightarrow>
                        upd_scene newScene (\<lambda>s. s\<lparr>settings_data := bd_data staged\<rparr>) w2);
              autoStart = (case u_data w2 key1 of
                             None \<Rightarrow> pe_autoStart entry
                           | Some staged \<Rightarrow> pe_autoStart entry \<or> bd_autoStart staged)
          in
          if autoStart \<or> active (heap w3 newScene)
          then Inr (w3\<lparr>u_start := u_start w3 @ [key1]\<rparr>)
          else Inr w3)"

text \<open>The loop: nothing it calls changes \<^verbatim>\<open>_pending\<close>, and an exception leaves it.\<close>

fun boot_pending :: "pending_entry list \<Rightarrow> world \<Rightarrow> error \<times> world + world" where
  "boot_pending [] w = Inr w"
| "boot_pending (entry # rest) w =
     (case boot_entry entry w of
        Inl e \<Rightarrow> Inl e
      | Inr w1 \<Rightarrow> boot_pending rest w1)"

text \<open>
  \<^verbatim>\<open>bootQueue\<close>. \<open>sysScene\<close> is the Scene that \<^verbatim>\<open>new Scene()\<close> builds for the system scene;
  the SYSTEM_READY event of the game is not recorded.
\<close>

definition bootQueue :: "scene \<Rightarrow> world \<Rightarrow> (error \<times> world + world) option" where
  "bootQueue sysScene w =
     (if isBooted w then Some (Inr w)
      else
        let (r, w0) = new_scene sysScene w;
            w1 = (createSceneFromInstance w0 ''__SYSTEM'' r)\<lparr>systemScene := Some r\<rparr>
        in
        case boot_pending (u_pending w1) w1 of
          Inl e \<Rightarrow> Some (Inl e)
        | Inr w2 \<Rightarrow>
            let w3 = w2\<lparr>u_pending := [], u_data := Map.empty, isBooted := True\<rparr>
            in
            (case start_loop 0 w3 of
               None \<Rightarrow> None
             | Some w4 \<Rightarrow> Some (Inr (w4\<lparr>u_start := []\<rparr>))))"

subsection \<open>The frame\<close>





subsection \<open>Example worlds\<close>

text \<open>
  A scene that defines \<^verbatim>\<open>init\<close>, \<^verbatim>\<open>create\<close> and \<^verbatim>\<open>update\<close>, has a loader and nothing to load,
  and a booted manager holding three such running scenes, in the orders A, B, C and
  B, A, C.
\<close>

definition plain_scene :: "string \<Rightarrow> nat \<Rightarrow> scene" where
  "plain_scene k st =
     \<lparr>settings_key = k, status = st, active = False, visible = True, isTransition = False,
      settings_data = empty_obj, pack = None, has_init = True, has_preload = False,
      has_create = True, has_update = True, load = True, addPack_result = False,
      plugin_target = False, sceneUpdate = False\<rparr>"

definition world_ABC :: world where
  "world_ABC =
     \<lparr>keys = [''A'' \<mapsto> 0, ''B'' \<mapsto> 1, ''C'' \<mapsto> 2],
      scenes = [Some 0, Some 1, Some 2],
      u_pending = [], u_start = [], u_queue = [], u_data = Map.empty,
      isProcessing = False, isBooted = True, systemScene = None,
      heap = (\<lambda>r. plain_scene (if r = 0 then ''A'' else if r = 1 then ''B'' else ''C'') RUNNING),
      next_ref = 3, trace = []\<rparr>"

definition world_BAC :: world where
  "world_BAC = world_ABC\<lparr>scenes := [Some 1, Some 0, Some 2]\<rparr>"


text \<open>
  Worlds for the start and switch algorithms. In \<open>world_packed\<close> every scene declares a
  pack: A is running, B is idle and its loader accepts the pack, C is idle and its loader
  rejects it. In \<open>world_loading\<close> scene B is loading. In \<open>world_switch\<close> A is running, B has
  never run and C is running and in a transition.
\<close>

definition world_packed :: world where
  "world_packed =
     world_ABC\<lparr>heap := (heap world_ABC)
        (0 := (plain_scene ''A'' RUNNING)\<lparr>pack := Some 1, addPack_result := True\<rparr>,
         1 := (plain_scene ''B'' INIT)\<lparr>pack := Some 2, addPack_result := True\<rparr>,
         2 := (plain_scene ''C'' INIT)\<lparr>pack := Some 3\<rparr>)\<rparr>"

definition world_loading :: world where
  "world_loading = world_ABC\<lparr>heap := (heap world_ABC)(1 := plain_scene ''B'' LOADING)\<rparr>"

text \<open>
  \<open>same_manager w w'\<close>: the step from \<open>w\<close> to \<open>w'\<close> changed none of the manager's own
  fields; only Scene objects and the trace may differ.
\<close>

definition same_manager :: "world \<Rightarrow> world \<Rightarrow> bool" where
  "same_manager w w' =
     (keys w' = keys w \<and> scenes w' = scenes w \<and> u_pending w' = u_pending w
      \<and> u_start w' = u_start w \<and> u_queue w' = u_queue w \<and> u_data w' = u_data w
      \<and> isProcessing w' = isProcessing w \<and> isBooted w' = isBooted w
      \<and> systemScene w' = systemScene w \<and> next_ref w' = next_ref w)"


text \<open>
  \<open>same_flow w w'\<close>: the step from \<open>w\<close> to \<open>w'\<close> changed neither of the two flags nor the
  lists \<^verbatim>\<open>_queue\<close> and \<^verbatim>\<open>_pending\<close>.
\<close>

definition same_flow :: "world \<Rightarrow> world \<Rightarrow> bool" where
  "same_flow w w' =
     (isBooted w' = isBooted w \<and> isProcessing w' = isProcessing w
      \<and> u_queue w' = u_queue w \<and> u_pending w' = u_pending w)"




text \<open>
  A manager before its first boot, constructed with two descriptor objects that both
  name the key A; the first is the one to start.
\<close>

definition world_unbooted :: world where
  "world_unbooted =
     \<lparr>keys = Map.empty, scenes = [],
      u_pending =
        [\<lparr>pe_key = ''default'', pe_scene = ConfigObject (Some ''A'') (plain_scene [] PENDING),
          pe_autoStart = True, pe_data = empty_obj\<rparr>,
         \<lparr>pe_key = ''default'', pe_scene = ConfigObject (Some ''A'') (plain_scene [] PENDING),
          pe_autoStart = False, pe_data = empty_obj\<rparr>],
      u_start = [], u_queue = [], u_data = Map.empty,
      isProcessing = False, isBooted = False, systemScene = None,
      heap = (\<lambda>r. plain_scene [] PENDING), next_ref = 0, trace = []\<rparr>"

section \<open>Properties\<close>

subsection \<open>Arrays\<close>

lemmas CONST_defs =
  PENDING_def INIT_def START_def LOADING_def CREATING_def RUNNING_def PAUSED_def
  SLEEPING_def SHUTDOWN_def DESTROYED_def

lemma indexOf_ge: "- 1 \<le> indexOf xs x"
  by (induction xs) (auto simp: Let_def)

lemma indexOf_lt: "indexOf xs x < int (length xs)"
  by (induction xs) (auto simp: Let_def)

lemma indexOf_absent: "indexOf xs x = - 1 \<longleftrightarrow> x \<notin> set xs"
proof (induction xs)
  case Nil
  then show ?case by simp
next
  case (Cons y ys)
  have "- 1 \<le> indexOf ys x" by (rule indexOf_ge)
  with Cons show ?case by (auto simp: Let_def)
qed

lemma indexOf_nth: "indexOf xs x \<noteq> - 1 \<Longrightarrow> xs ! nat (indexOf xs x) = x"
proof (induction xs)
  case Nil
  then show ?case by simp
next
  case (Cons y ys)
  have ge: "- 1 \<le> indexOf ys x" by (rule indexOf_ge)
  show ?case
  proof (cases "y = x")
    case True
    then show ?thesis by simp
  next
    case False
    with Cons.prems have ne: "indexOf ys x \<noteq> - 1" by (auto simp: Let_def split: if_splits)
    with ge have pos: "0 \<le> indexOf ys x" by arith
    from Cons.IH[OF ne] False ne pos show ?thesis
      by (simp add: Let_def nat_add_distrib)
  qed
qed

lemma indexOf_append_fresh:
  "x \<notin> set ys \<Longrightarrow> indexOf (ys @ x # zs) x = int (length ys)"
  by (induction ys) (auto simp: Let_def)

lemma mset_splice_remove:
  "0 \<le> i \<Longrightarrow> i < int (length xs) \<Longrightarrow> add_mset (xs ! nat i) (mset (splice_remove xs i)) = mset xs"
proof -
  assume a: "0 \<le> i" "i < int (length xs)"
  then have n: "nat i < length xs" by arith
  have "xs = take (nat i) xs @ xs ! nat i # drop (Suc (nat i)) xs"
    using n by (simp add: id_take_nth_drop)
  then have "mset xs = mset (take (nat i) xs) + add_mset (xs ! nat i) (mset (drop (Suc (nat i)) xs))"
    by (metis mset.simps(2) mset_append)
  with a n show ?thesis
    by (simp add: splice_remove_def splice_start_def min_def Let_def)
qed

lemma mset_splice_insert: "mset (splice_insert xs i v) = add_mset v (mset xs)"
proof -
  have "mset (take s xs) + mset (drop s xs) = mset xs" for s
    by (metis append_take_drop_id mset_append)
  then show ?thesis by (simp add: splice_insert_def Let_def)
qed

lemma mset_assign_swap:
  "0 \<le> i \<Longrightarrow> i < int (length xs) \<Longrightarrow> 0 \<le> j \<Longrightarrow> j < int (length xs) \<Longrightarrow>
   mset (assign_at (assign_at xs i (xs ! nat j)) j (xs ! nat i)) = mset xs"
  by (simp add: assign_at_def mset_swap)

lemma queueOp_scenes [simp]: "scenes (queueOp w opn a b d) = scenes w"
  by (simp add: queueOp_def)

lemma queueOp_keys [simp]: "keys (queueOp w opn a b d) = keys w"
  by (simp add: queueOp_def)

lemma getIndex_nth:
  "getIndex w k \<noteq> - 1 \<Longrightarrow> scenes w ! nat (getIndex w k) = getScene w k"
  unfolding getIndex_def by (rule indexOf_nth)

lemma getIndex_range: "- 1 \<le> getIndex w k \<and> getIndex w k < int (length (scenes w))"
  unfolding getIndex_def by (simp add: indexOf_ge indexOf_lt)

lemma bringToTop_mset: "mset (scenes (bringToTop w k)) = mset (scenes w)"
proof -
  have r: "- 1 \<le> getIndex w k \<and> getIndex w k < int (length (scenes w))"
    by (rule getIndex_range)
  show ?thesis
  proof (cases "\<not> isProcessing w \<and> getIndex w k \<noteq> - 1")
    case True
    with r have pos: "0 \<le> getIndex w k" by arith
    from True have nth: "scenes w ! nat (getIndex w k) = getScene w k"
      by (simp add: getIndex_nth)
    from mset_splice_remove[OF pos conjunct2[OF r]] nth True r show ?thesis
      by (simp add: bringToTop_def Let_def)
  next
    case False
    then show ?thesis by (auto simp: bringToTop_def Let_def)
  qed
qed

lemma sendToBack_mset: "mset (scenes (sendToBack w k)) = mset (scenes w)"
proof -
  have r: "- 1 \<le> getIndex w k \<and> getIndex w k < int (length (scenes w))"
    by (rule getIndex_range)
  show ?thesis
  proof (cases "\<not> isProcessing w \<and> getIndex w k > 0")
    case True
    then have pos: "0 \<le> getIndex w k" by arith
    from True have nth: "scenes w ! nat (getIndex w k) = getScene w k"
      by (simp add: getIndex_nth)
    from mset_splice_remove[OF pos conjunct2[OF r]] nth True r show ?thesis
      by (simp add: sendToBack_def Let_def)
  next
    case False
    then show ?thesis by (auto simp: sendToBack_def Let_def)
  qed
qed

lemma moveDown_mset: "mset (scenes (moveDown w k)) = mset (scenes w)"
proof -
  have r: "- 1 \<le> getIndex w k \<and> getIndex w k < int (length (scenes w))"
    by (rule getIndex_range)
  show ?thesis
  proof (cases "\<not> isProcessing w \<and> getIndex w k > 0")
    case True
    then have nth: "scenes w ! nat (getIndex w k) = getScene w k"
      by (simp add: getIndex_nth)
    from True r have "mset (assign_at (assign_at (scenes w) (getIndex w k)
          (scenes w ! nat (getIndex w k - 1))) (getIndex w k - 1) (scenes w ! nat (getIndex w k)))
        = mset (scenes w)"
      by (intro mset_assign_swap) auto
    with True r nth show ?thesis
      by (simp add: moveDown_def Let_def getAt_def read_at_def)
  next
    case False
    then show ?thesis by (auto simp: moveDown_def Let_def)
  qed
qed

lemma moveUp_mset:
  "getIndex w k \<noteq> - 1 \<or> scenes w = [] \<Longrightarrow> mset (scenes (moveUp w k)) = mset (scenes w)"
proof -
  assume a: "getIndex w k \<noteq> - 1 \<or> scenes w = []"
  have r: "- 1 \<le> getIndex w k \<and> getIndex w k < int (length (scenes w))"
    by (rule getIndex_range)
  show ?thesis
  proof (cases "\<not> isProcessing w \<and> getIndex w k < int (length (scenes w)) - 1")
    case True
    with a r have ne: "getIndex w k \<noteq> - 1" by auto
    then have nth: "scenes w ! nat (getIndex w k) = getScene w k"
      by (simp add: getIndex_nth)
    from True r ne have "mset (assign_at (assign_at (scenes w) (getIndex w k)
          (scenes w ! nat (getIndex w k + 1))) (getIndex w k + 1) (scenes w ! nat (getIndex w k)))
        = mset (scenes w)"
      by (intro mset_assign_swap) auto
    with True r nth ne show ?thesis
      by (simp add: moveUp_def Let_def getAt_def read_at_def)
  next
    case False
    then show ?thesis by (auto simp: moveUp_def Let_def)
  qed
qed

lemma moveAbove_mset: "mset (scenes (moveAbove w kA kB)) = mset (scenes w)"
proof -
  have r: "- 1 \<le> getIndex w kB \<and> getIndex w kB < int (length (scenes w))"
    by (rule getIndex_range)
  show ?thesis
  proof (cases "getIndex w kB \<noteq> - 1")
    case True
    with r have pos: "0 \<le> getIndex w kB" by arith
    from mset_splice_remove[OF pos conjunct2[OF r]] r pos show ?thesis
      by (simp add: moveAbove_def Let_def mset_splice_insert getAt_def read_at_def)
  next
    case False
    then show ?thesis by (auto simp: moveAbove_def Let_def)
  qed
qed

lemma moveBelow_mset: "mset (scenes (moveBelow w kA kB)) = mset (scenes w)"
proof -
  have r: "- 1 \<le> getIndex w kB \<and> getIndex w kB < int (length (scenes w))"
    by (rule getIndex_range)
  show ?thesis
  proof (cases "getIndex w kB \<noteq> - 1")
    case True
    with r have pos: "0 \<le> getIndex w kB" by arith
    from mset_splice_remove[OF pos conjunct2[OF r]] r pos show ?thesis
      by (simp add: moveBelow_def Let_def mset_splice_insert getAt_def read_at_def)
  next
    case False
    then show ?thesis by (auto simp: moveBelow_def Let_def)
  qed
qed

lemma swapPosition_mset: "mset (scenes (swapPosition w kA kB)) = mset (scenes w)"
proof -
  have rA: "- 1 \<le> getIndex w kA \<and> getIndex w kA < int (length (scenes w))"
    by (rule getIndex_range)
  have rB: "- 1 \<le> getIndex w kB \<and> getIndex w kB < int (length (scenes w))"
    by (rule getIndex_range)
  show ?thesis
  proof (cases "getIndex w kA \<noteq> - 1 \<and> getIndex w kB \<noteq> - 1")
    case True
    with rA rB have "mset (assign_at (assign_at (scenes w) (getIndex w kA)
          (scenes w ! nat (getIndex w kB))) (getIndex w kB) (scenes w ! nat (getIndex w kA)))
        = mset (scenes w)"
      by (intro mset_assign_swap) auto
    with True rA rB show ?thesis
      by (simp add: swapPosition_def Let_def getAt_def read_at_def)
  next
    case False
    then show ?thesis by (auto simp: swapPosition_def Let_def)
  qed
qed

lemma indexOf_split:
  "indexOf xs x \<noteq> - 1 \<Longrightarrow> \<exists>p r. xs = p @ x # r \<and> x \<notin> set p \<and> indexOf xs x = int (length p)"
proof -
  assume "indexOf xs x \<noteq> - 1"
  then have "x \<in> set xs" by (simp add: indexOf_absent)
  then obtain p r where d: "xs = p @ x # r" "x \<notin> set p"
    by (auto dest: split_list_first)
  then have "indexOf xs x = int (length p)" by (simp add: indexOf_append_fresh)
  with d show ?thesis by blast
qed

lemma splice_remove_at: "splice_remove (p @ x # r) (int (length p)) = p @ r"
  by (simp add: splice_remove_def splice_start_def Let_def)

lemma splice_insert_at: "splice_insert (p @ r) (int (length p)) v = p @ v # r"
  by (simp add: splice_insert_def splice_start_def Let_def)

lemma two_split:
  assumes "indexOf xs a \<noteq> - 1" "indexOf xs b \<noteq> - 1" "indexOf xs b < indexOf xs a"
  shows "\<exists>p q r. xs = p @ b # q @ a # r \<and> b \<notin> set p \<and> a \<notin> set p \<and> a \<notin> set q \<and> a \<noteq> b
           \<and> indexOf xs b = int (length p) \<and> indexOf xs a = int (length p) + 1 + int (length q)"
proof -
  from indexOf_split[OF assms(2)] obtain p r0 where
    d1: "xs = p @ b # r0" "b \<notin> set p" "indexOf xs b = int (length p)" by blast
  from assms(3) have ne: "a \<noteq> b" by auto
  have anp: "a \<notin> set p"
  proof
    assume "a \<in> set p"
    then obtain p1 p2 where "p = p1 @ a # p2" "a \<notin> set p1" by (auto dest: split_list_first)
    then have "indexOf xs a = int (length p1)" using d1(1) by (simp add: indexOf_append_fresh)
    moreover have "length p1 < length p" using \<open>p = p1 @ a # p2\<close> by simp
    ultimately show False using assms(3) d1(3) by simp
  qed
  from assms(1) have "a \<in> set xs" by (simp add: indexOf_absent)
  with d1(1) anp ne have "a \<in> set r0" by auto
  then obtain q r where d2: "r0 = q @ a # r" "a \<notin> set q" by (auto dest: split_list_first)
  have "xs = (p @ b # q) @ a # r" using d1(1) d2(1) by simp
  moreover have "a \<notin> set (p @ b # q)" using anp ne d2(2) by simp
  ultimately have "indexOf xs a = int (length (p @ b # q))" by (metis indexOf_append_fresh)
  with d1 d2 anp ne show ?thesis by auto
qed

lemma splice_move_above:
  assumes "distinct xs" "indexOf xs a \<noteq> - 1" "indexOf xs b \<noteq> - 1" "indexOf xs b < indexOf xs a"
  defines "ys \<equiv> splice_insert (splice_remove xs (indexOf xs b)) (indexOf xs a) b"
  shows "indexOf ys b = indexOf ys a + 1 \<and> remove1 b ys = remove1 b xs"
proof -
  from two_split[OF assms(2,3,4)] obtain p q r where
    d: "xs = p @ b # q @ a # r" "b \<notin> set p" "a \<notin> set p" "a \<notin> set q" "a \<noteq> b"
       "indexOf xs b = int (length p)" "indexOf xs a = int (length p) + 1 + int (length q)"
    by blast
  from assms(1) d(1) have bq: "b \<notin> set q" "b \<notin> set r" by auto
  have rem: "splice_remove xs (indexOf xs b) = (p @ q @ [a]) @ r"
    using splice_remove_at[of p b "q @ a # r"] d(1,6) by simp
  have "int (length (p @ q @ [a])) = indexOf xs a" using d(7) by simp
  then have ys: "ys = (p @ q @ [a]) @ b # r"
    unfolding ys_def rem using splice_insert_at[of "p @ q @ [a]" r b] by simp
  have ib: "indexOf ys b = int (length (p @ q @ [a]))"
    unfolding ys using d(2,5) bq by (intro indexOf_append_fresh) auto
  have "ys = (p @ q) @ a # (b # r)" using ys by simp
  moreover have "a \<notin> set (p @ q)" using d(3,4) by simp
  ultimately have ia: "indexOf ys a = int (length (p @ q))" by (metis indexOf_append_fresh)
  have r1: "remove1 b ys = p @ q @ a # r"
    unfolding ys using d(2,5) bq by (simp add: remove1_append)
  have r2: "remove1 b xs = p @ q @ a # r"
    unfolding d(1) using d(2) by (simp add: remove1_append)
  from ia ib r1 r2 show ?thesis by simp
qed

lemma splice_move_below:
  assumes "distinct xs" "indexOf xs a \<noteq> - 1" "indexOf xs b \<noteq> - 1" "indexOf xs a < indexOf xs b"
  defines "ys \<equiv> (if indexOf xs a = 0 then b # splice_remove xs (indexOf xs b)
                  else splice_insert (splice_remove xs (indexOf xs b)) (indexOf xs a) b)"
  shows "indexOf ys b + 1 = indexOf ys a \<and> remove1 b ys = remove1 b xs"
proof -
  from two_split[OF assms(3,2,4)] obtain p q r where
    d: "xs = p @ a # q @ b # r" "a \<notin> set p" "b \<notin> set p" "b \<notin> set q" "b \<noteq> a"
       "indexOf xs a = int (length p)" "indexOf xs b = int (length p) + 1 + int (length q)"
    by blast
  have "xs = (p @ a # q) @ b # r" using d(1) by simp
  moreover have "int (length (p @ a # q)) = indexOf xs b" using d(7) by simp
  ultimately have rem: "splice_remove xs (indexOf xs b) = p @ (a # q @ r)"
    using splice_remove_at[of "p @ a # q" b r] by simp
  have ys: "ys = p @ b # a # q @ r"
  proof (cases "indexOf xs a = 0")
    case True
    with d(6) have "p = []" by simp
    with True rem show ?thesis by (simp add: ys_def)
  next
    case False
    then show ?thesis
      unfolding ys_def rem using splice_insert_at[of p "a # q @ r" b] d(6) by simp
  qed
  have ib: "indexOf ys b = int (length p)"
    unfolding ys using d(3) by (intro indexOf_append_fresh) auto
  have "ys = (p @ [b]) @ a # (q @ r)" using ys by simp
  moreover have "a \<notin> set (p @ [b])" using d(2,5) by simp
  ultimately have ia: "indexOf ys a = int (length (p @ [b]))" by (metis indexOf_append_fresh)
  have r1: "remove1 b ys = p @ a # q @ r"
    unfolding ys using d(3) by (simp add: remove1_append)
  have r2: "remove1 b xs = p @ a # q @ r"
    unfolding d(1) using d(3,4,5) by (simp add: remove1_append)
  from ia ib r1 r2 show ?thesis by simp
qed

lemmas array_defs = getIndex_def getScene_def getAt_def read_at_def assign_at_def
  splice_remove_def splice_insert_def splice_start_def Number_def

lemma moveAbove_keys: "keys (moveAbove w kA kB) = keys w"
  by (simp add: moveAbove_def Let_def)

lemma moveBelow_keys: "keys (moveBelow w kA kB) = keys w"
  by (simp add: moveBelow_def Let_def)

lemma moveAbove_scenes_moved:
  assumes "\<not> isProcessing w" "kA \<noteq> kB" "getIndex w kA \<noteq> - 1" "getIndex w kB \<noteq> - 1"
    "getIndex w kB < getIndex w kA"
  shows "scenes (moveAbove w kA kB) =
         splice_insert (splice_remove (scenes w) (getIndex w kB)) (getIndex w kA) (getScene w kB)"
proof -
  have r: "- 1 \<le> getIndex w kB \<and> getIndex w kB < int (length (scenes w))"
    by (rule getIndex_range)
  have "getAt w (getIndex w kB) = getScene w kB"
    using getIndex_nth[OF assms(4)] r assms(4) by (simp add: getAt_def read_at_def)
  with assms show ?thesis by (simp add: moveAbove_def Let_def Number_def)
qed

lemma moveBelow_scenes_moved:
  assumes "\<not> isProcessing w" "kA \<noteq> kB" "getIndex w kA \<noteq> - 1" "getIndex w kB \<noteq> - 1"
    "getIndex w kA < getIndex w kB"
  shows "scenes (moveBelow w kA kB) =
         (if getIndex w kA = 0 then getScene w kB # splice_remove (scenes w) (getIndex w kB)
          else splice_insert (splice_remove (scenes w) (getIndex w kB)) (getIndex w kA)
                 (getScene w kB))"
proof -
  have r: "- 1 \<le> getIndex w kB \<and> getIndex w kB < int (length (scenes w))"
    by (rule getIndex_range)
  have "getAt w (getIndex w kB) = getScene w kB"
    using getIndex_nth[OF assms(4)] r assms(4) by (simp add: getAt_def read_at_def)
  with assms show ?thesis by (simp add: moveBelow_def Let_def Number_def)
qed

subsection \<open>Relative moves\<close>

text \<open>
  Claim C8, amended. \<^verbatim>\<open>moveAbove(keyA, keyB)\<close> and \<^verbatim>\<open>moveBelow(keyA, keyB)\<close> move the scene
  of their second key and take the first as the reference. For two different scenes of
  a duplicate-free list, outside processing: when the second scene is already above
  (for \<^verbatim>\<open>moveBelow\<close>: below) the first, nothing changes; otherwise the second scene ends
  directly above (below) the first, the other scenes keep their order and the key table
  is untouched. With the order A, B, C the call \<^verbatim>\<open>moveAbove('A', 'B')\<close> changes nothing, and
  with the order B, A, C it yields A, B, C.
\<close>

theorem moveAbove_moveBelow_reposition:
  assumes np: "\<not> isProcessing w" and d: "distinct (scenes w)"
    and a: "getScene w kA = Some a" and b: "getScene w kB = Some b"
    and ain: "Some a \<in> set (scenes w)" and bin: "Some b \<in> set (scenes w)"
    and ne: "a \<noteq> b"
  shows "(getIndex w kA < getIndex w kB \<longrightarrow> moveAbove w kA kB = w)
       \<and> (getIndex w kB < getIndex w kA \<longrightarrow>
            indexOf (scenes (moveAbove w kA kB)) (Some b)
              = indexOf (scenes (moveAbove w kA kB)) (Some a) + 1
          \<and> remove1 (Some b) (scenes (moveAbove w kA kB)) = remove1 (Some b) (scenes w)
          \<and> keys (moveAbove w kA kB) = keys w)
       \<and> (getIndex w kB < getIndex w kA \<longrightarrow> moveBelow w kA kB = w)
       \<and> (getIndex w kA < getIndex w kB \<longrightarrow>
            indexOf (scenes (moveBelow w kA kB)) (Some b) + 1
              = indexOf (scenes (moveBelow w kA kB)) (Some a)
          \<and> remove1 (Some b) (scenes (moveBelow w kA kB)) = remove1 (Some b) (scenes w)
          \<and> keys (moveBelow w kA kB) = keys w)
       \<and> scenes (moveAbove world_ABC (Str ''A'') (Str ''B'')) = [Some 0, Some 1, Some 2]
       \<and> scenes (moveAbove world_BAC (Str ''A'') (Str ''B'')) = [Some 0, Some 1, Some 2]"
proof -
  from a b ne have kne: "kA \<noteq> kB" by auto
  have iA: "getIndex w kA \<noteq> - 1" using a ain by (simp add: getIndex_def indexOf_absent)
  have iB: "getIndex w kB \<noteq> - 1" using b bin by (simp add: getIndex_def indexOf_absent)
  have gA: "getIndex w kA = indexOf (scenes w) (Some a)" using a by (simp add: getIndex_def)
  have gB: "getIndex w kB = indexOf (scenes w) (Some b)" using b by (simp add: getIndex_def)
  have c1: "getIndex w kA < getIndex w kB \<longrightarrow> moveAbove w kA kB = w"
    using np by (simp add: moveAbove_def Let_def)
  have c3: "getIndex w kB < getIndex w kA \<longrightarrow> moveBelow w kA kB = w"
    using np by (simp add: moveBelow_def Let_def)
  have c2: "getIndex w kB < getIndex w kA \<longrightarrow>
            indexOf (scenes (moveAbove w kA kB)) (Some b)
              = indexOf (scenes (moveAbove w kA kB)) (Some a) + 1
          \<and> remove1 (Some b) (scenes (moveAbove w kA kB)) = remove1 (Some b) (scenes w)
          \<and> keys (moveAbove w kA kB) = keys w"
  proof
    assume lt: "getIndex w kB < getIndex w kA"
    have sc: "scenes (moveAbove w kA kB) =
        splice_insert (splice_remove (scenes w) (indexOf (scenes w) (Some b)))
          (indexOf (scenes w) (Some a)) (Some b)"
      using moveAbove_scenes_moved[OF np kne iA iB lt] gA gB b by simp
    from splice_move_above[OF d, of "Some a" "Some b"] iA iB lt gA gB sc
    show "indexOf (scenes (moveAbove w kA kB)) (Some b)
              = indexOf (scenes (moveAbove w kA kB)) (Some a) + 1
          \<and> remove1 (Some b) (scenes (moveAbove w kA kB)) = remove1 (Some b) (scenes w)
          \<and> keys (moveAbove w kA kB) = keys w"
      by (simp add: moveAbove_keys)
  qed
  have c4: "getIndex w kA < getIndex w kB \<longrightarrow>
            indexOf (scenes (moveBelow w kA kB)) (Some b) + 1
              = indexOf (scenes (moveBelow w kA kB)) (Some a)
          \<and> remove1 (Some b) (scenes (moveBelow w kA kB)) = remove1 (Some b) (scenes w)
          \<and> keys (moveBelow w kA kB) = keys w"
  proof
    assume lt: "getIndex w kA < getIndex w kB"
    have sc: "scenes (moveBelow w kA kB) =
        (if indexOf (scenes w) (Some a) = 0
         then Some b # splice_remove (scenes w) (indexOf (scenes w) (Some b))
         else splice_insert (splice_remove (scenes w) (indexOf (scenes w) (Some b)))
                (indexOf (scenes w) (Some a)) (Some b))"
      using moveBelow_scenes_moved[OF np kne iA iB lt] gA gB b by simp
    from splice_move_below[OF d, of "Some a" "Some b"] iA iB lt gA gB sc
    show "indexOf (scenes (moveBelow w kA kB)) (Some b) + 1
              = indexOf (scenes (moveBelow w kA kB)) (Some a)
          \<and> remove1 (Some b) (scenes (moveBelow w kA kB)) = remove1 (Some b) (scenes w)
          \<and> keys (moveBelow w kA kB) = keys w"
      by (simp add: moveBelow_keys)
  qed
  have s1: "scenes (moveAbove world_ABC (Str ''A'') (Str ''B'')) = [Some 0, Some 1, Some 2]"
    by (simp add: moveAbove_def world_ABC_def array_defs Let_def)
  have s2: "scenes (moveAbove world_BAC (Str ''A'') (Str ''B'')) = [Some 0, Some 1, Some 2]"
    by (simp add: moveAbove_def world_BAC_def world_ABC_def array_defs Let_def)
  from c1 c2 c3 c4 s1 s2 show ?thesis by blast
qed

text \<open>The theorem at the two example worlds, with its hypotheses discharged.\<close>

theorem moveAbove_moveBelow_reposition_witness:
  "moveAbove world_ABC (Str ''A'') (Str ''B'') = world_ABC
   \<and> indexOf (scenes (moveBelow world_ABC (Str ''A'') (Str ''B''))) (Some 1) + 1
       = indexOf (scenes (moveBelow world_ABC (Str ''A'') (Str ''B''))) (Some 0)
   \<and> moveBelow world_BAC (Str ''A'') (Str ''B'') = world_BAC
   \<and> indexOf (scenes (moveAbove world_BAC (Str ''A'') (Str ''B''))) (Some 1)
       = indexOf (scenes (moveAbove world_BAC (Str ''A'') (Str ''B''))) (Some 0) + 1"
proof -
  have h1: "\<not> isProcessing world_ABC" "distinct (scenes world_ABC)"
    "getScene world_ABC (Str ''A'') = Some 0" "getScene world_ABC (Str ''B'') = Some 1"
    "Some 0 \<in> set (scenes world_ABC)" "Some 1 \<in> set (scenes world_ABC)" "(0::nat) \<noteq> 1"
    by (simp_all add: world_ABC_def getScene_def)
  have h2: "\<not> isProcessing world_BAC" "distinct (scenes world_BAC)"
    "getScene world_BAC (Str ''A'') = Some 0" "getScene world_BAC (Str ''B'') = Some 1"
    "Some 0 \<in> set (scenes world_BAC)" "Some 1 \<in> set (scenes world_BAC)"
    by (simp_all add: world_BAC_def world_ABC_def getScene_def)
  have i1: "getIndex world_ABC (Str ''A'') < getIndex world_ABC (Str ''B'')"
    by (simp add: world_ABC_def getIndex_def getScene_def)
  have i2: "getIndex world_BAC (Str ''B'') < getIndex world_BAC (Str ''A'')"
    by (simp add: world_BAC_def world_ABC_def getIndex_def getScene_def)
  from moveAbove_moveBelow_reposition[OF h1] moveAbove_moveBelow_reposition[OF h2 h1(7)] i1 i2
  show ?thesis by simp
qed

text \<open>
  Claim C8 as stated: with the order A, B, C the call \<^verbatim>\<open>moveAbove('B', 'A')\<close> moves A above B
  and yields B, A, C; with the order B, A, C it changes nothing.
\<close>

theorem moveAbove_B_A_counterexample:
  "scenes world_ABC = [Some 0, Some 1, Some 2]
   \<and> getScene world_ABC (Str ''A'') = Some 0 \<and> getScene world_ABC (Str ''B'') = Some 1
   \<and> scenes (moveAbove world_ABC (Str ''B'') (Str ''A'')) = [Some 1, Some 0, Some 2]
   \<and> scenes world_BAC = [Some 1, Some 0, Some 2]
   \<and> getScene world_BAC (Str ''A'') = Some 0 \<and> getScene world_BAC (Str ''B'') = Some 1
   \<and> scenes (moveAbove world_BAC (Str ''B'') (Str ''A'')) = [Some 1, Some 0, Some 2]"
  by (simp add: moveAbove_def world_BAC_def world_ABC_def array_defs Let_def)

subsection \<open>Unknown keys\<close>




lemma moveUp_unknown_key:
  assumes "\<not> isProcessing w" "getIndex w k = - 1" "scenes w \<noteq> []"
  shows "scenes (moveUp w k) = (scenes w)[0 := getScene w k]"
proof -
  from assms(3) have "0 < length (scenes w)" by simp
  with assms show ?thesis
    by (simp add: moveUp_def Let_def assign_at_def getAt_def read_at_def)
qed

text \<open>
  Claim C10 at a failing input. With the scenes A, B, C and no scene under the key X,
  \<^verbatim>\<open>moveUp('X')\<close> outside processing finds index -1, passes the test
  \<^verbatim>\<open>indexA < this.scenes.length - 1\<close>, and writes \<^verbatim>\<open>null\<close> over the scene at index 0: the array
  is no permutation of the one before. The lemmas \<open>bringToTop_mset\<close> to
  \<open>swapPosition_mset\<close> show the permutation for the other six operations on every input,
  and \<open>moveUp_mset\<close> for \<^verbatim>\<open>moveUp\<close> when the key is found.
\<close>

theorem moveUp_unknown_key_overwrites:
  "\<not> isProcessing world_ABC \<and> getScene world_ABC (Str ''X'') = None
   \<and> scenes world_ABC = [Some 0, Some 1, Some 2]
   \<and> scenes (moveUp world_ABC (Str ''X'')) = [None, Some 1, Some 2]
   \<and> mset (scenes (moveUp world_ABC (Str ''X''))) \<noteq> mset (scenes world_ABC)"
  by (simp add: moveUp_def world_ABC_def array_defs Let_def)




subsection \<open>Admission\<close>

text \<open>
  Claim C6. While the manager is processing or has not booted, \<^verbatim>\<open>add\<close> returns \<^verbatim>\<open>null\<close>,
  appends the request to \<^verbatim>\<open>_pending\<close> and leaves scenes and keys alone; before boot it
  also stores the data under the key in \<^verbatim>\<open>_data\<close>, and after boot it leaves \<^verbatim>\<open>_data\<close> alone.
\<close>

theorem add_deferred:
  assumes "isProcessing w \<or> \<not> isBooted w"
  shows "\<exists>w'. add w key sceneConfig autoStart data = Inr (None, w')
           \<and> scenes w' = scenes w \<and> keys w' = keys w
           \<and> u_pending w' = u_pending w @
                [\<lparr>pe_key = key, pe_scene = sceneConfig, pe_autoStart = autoStart,
                  pe_data = default_data data\<rparr>]
           \<and> (\<not> isBooted w \<longrightarrow>
                u_data w' key = Some \<lparr>bd_autoStart = False, bd_data = default_data data\<rparr>)
           \<and> (isBooted w \<longrightarrow> u_data w' = u_data w)"
  using assms by (auto simp: add_def Let_def)

text \<open>The theorem for a processing manager and for a manager that has not booted.\<close>

theorem add_deferred_witness:
  "(\<exists>w'. add (world_ABC\<lparr>isProcessing := True\<rparr>) ''D'' NotAScene True (Obj 7) = Inr (None, w')
      \<and> scenes w' = scenes world_ABC \<and> keys w' = keys world_ABC
      \<and> u_pending w' = [\<lparr>pe_key = ''D'', pe_scene = NotAScene, pe_autoStart = True,
                          pe_data = Obj 7\<rparr>]
      \<and> u_data w' = u_data world_ABC)
   \<and> (\<exists>w'. add (world_ABC\<lparr>isBooted := False\<rparr>) ''D'' NotAScene True (Obj 7) = Inr (None, w')
      \<and> scenes w' = scenes world_ABC \<and> keys w' = keys world_ABC
      \<and> u_pending w' = [\<lparr>pe_key = ''D'', pe_scene = NotAScene, pe_autoStart = True,
                          pe_data = Obj 7\<rparr>]
      \<and> u_data w' ''D'' = Some \<lparr>bd_autoStart = False, bd_data = Obj 7\<rparr>)"
proof -
  have h1: "isProcessing (world_ABC\<lparr>isProcessing := True\<rparr>)
            \<or> \<not> isBooted (world_ABC\<lparr>isProcessing := True\<rparr>)" by simp
  have h2: "isProcessing (world_ABC\<lparr>isBooted := False\<rparr>)
            \<or> \<not> isBooted (world_ABC\<lparr>isBooted := False\<rparr>)" by simp
  from add_deferred[OF h1, of "''D''" NotAScene True "Obj 7"]
       add_deferred[OF h2, of "''D''" NotAScene True "Obj 7"]
  show ?thesis by (simp add: world_ABC_def default_data_def)
qed

subsection \<open>Starting a scene\<close>

lemmas sys_defs = sys_init_def sys_start_def sys_shutdown_def sys_pause_def sys_resume_def
  sys_sleep_def sys_wake_def sys_destroy_def sys_isSleeping_def sys_isPaused_def
  sys_isTransitioning_def upd_scene_def emit_def

lemma start_idle_boot:
  assumes "isBooted w" and "getScene w key = Some r"
    and a: "\<not> (START \<le> status (heap w r) \<and> status (heap w r) \<le> SLEEPING)
          \<and> \<not> (load (heap w r) \<and> pack (heap w r) \<noteq> None \<and> addPack_result (heap w r))"
  shows "\<exists>w'. heap w' r = (heap w r)\<lparr>status := START, settings_data := default_data d,
                                       sceneUpdate := False\<rparr>
             \<and> trace w' = trace w @ SysStart r (default_data d) #
                  (if load (heap w r) \<and> pack (heap w r) \<noteq> None
                   then [LoaderReset r, LoaderAddPack r (pack (heap w r))] else [])
             \<and> start w key d = bootScene w' r"
proof -
  from a have n: "(START \<le> status (heap w r) \<and> status (heap w r) \<le> CREATING) = False"
    "(RUNNING \<le> status (heap w r) \<and> status (heap w r) \<le> SLEEPING) = False"
    by (auto simp: CONST_defs)
  let ?w2 = "sys_start (upd_scene r (\<lambda>s. s\<lparr>sceneUpdate := False\<rparr>) w) r (default_data d)"
  let ?w4 = "emit (LoaderAddPack r (pack (heap w r))) (emit (LoaderReset r) ?w2)"
  let ?w' = "if load (heap w r) \<and> pack (heap w r) \<noteq> None then ?w4 else ?w2"
  have f: "load (heap ?w2 r) = load (heap w r)" "pack (heap ?w2 r) = pack (heap w r)"
    "pack (heap (emit (LoaderReset r) ?w2) r) = pack (heap w r)"
    "addPack_result (heap ?w4 r) = addPack_result (heap w r)"
    by (simp_all add: sys_defs)
  have "start w key d = bootScene ?w' r"
  proof (cases "load (heap w r) \<and> pack (heap w r) \<noteq> None")
    case True
    then have e: "(load (heap w r) \<and> pack (heap w r) \<noteq> None) = True" by simp
    from True a have "addPack_result (heap w r) = False" by simp
    with assms(1,2) show ?thesis
      by (simp only: start_def Let_def n f e if_True if_False option.case, simp)
  next
    case False
    then have e: "(load (heap w r) \<and> pack (heap w r) \<noteq> None) = False" by simp
    from assms(1,2) show ?thesis
      by (simp only: start_def Let_def n f e if_True if_False option.case, simp)
  qed
  moreover have "heap ?w' r = (heap w r)\<lparr>status := START, settings_data := default_data d,
                                       sceneUpdate := False\<rparr>"
    "trace ?w' = trace w @ SysStart r (default_data d) #
                  (if load (heap w r) \<and> pack (heap w r) \<noteq> None
                   then [LoaderReset r, LoaderAddPack r (pack (heap w r))] else [])"
    by (simp_all add: sys_defs)
  ultimately show ?thesis by blast
qed

text \<open>
  Claim C3, amended. On a booted manager, for a key that names the scene \<open>r\<close>:
  with a status in START..CREATING \<^verbatim>\<open>start\<close> changes nothing at all (no status change, no
  \<^verbatim>\<open>init\<close>); with a status in RUNNING..SLEEPING it calls \<^verbatim>\<open>shutdown()\<close>, then
  \<^verbatim>\<open>start(data)\<close>, and then boots the scene at once, without looking at the pack; otherwise
  it calls \<^verbatim>\<open>start(data)\<close>, and when the scene has a loader, declares a pack and the loader's
  \<^verbatim>\<open>addPack\<close> accepts it, the scene goes to LOADING, the loader is started with
  \<^verbatim>\<open>payloadComplete\<close> as its completion callback (which is \<^verbatim>\<open>bootScene\<close>) and \<^verbatim>\<open>bootScene\<close> is not
  called yet; in every other case \<^verbatim>\<open>bootScene\<close> is called at once, from a state in which the
  scene has status START and the new data.
\<close>

theorem start_dispatch:
  assumes "isBooted w" and "getScene w key = Some r"
  shows "(START \<le> status (heap w r) \<and> status (heap w r) \<le> CREATING \<longrightarrow> start w key d = w)
     \<and> (RUNNING \<le> status (heap w r) \<and> status (heap w r) \<le> SLEEPING \<longrightarrow>
          (\<exists>w'. status (heap w' r) = START \<and> settings_data (heap w' r) = default_data d
             \<and> trace w' = trace w @ [SysShutdown r Undefined, SysStart r (default_data d)]
             \<and> start w key d = bootScene w' r))
     \<and> (\<not> (START \<le> status (heap w r) \<and> status (heap w r) \<le> SLEEPING)
          \<and> load (heap w r) \<and> pack (heap w r) \<noteq> None \<and> addPack_result (heap w r) \<longrightarrow>
          status (heap (start w key d) r) = LOADING
          \<and> settings_data (heap (start w key d) r) = default_data d
          \<and> trace (start w key d) = trace w @
               [SysStart r (default_data d), LoaderReset r, LoaderAddPack r (pack (heap w r)),
                LoaderOnce r PayloadComplete, LoaderStart r]
          \<and> payloadComplete (start w key d) r = bootScene (start w key d) r)
     \<and> (\<not> (START \<le> status (heap w r) \<and> status (heap w r) \<le> SLEEPING)
          \<and> \<not> (load (heap w r) \<and> pack (heap w r) \<noteq> None \<and> addPack_result (heap w r)) \<longrightarrow>
          (\<exists>w'. status (heap w' r) = START \<and> settings_data (heap w' r) = default_data d
             \<and> trace w' = trace w @ SysStart r (default_data d) #
                  (if load (heap w r) \<and> pack (heap w r) \<noteq> None
                   then [LoaderReset r, LoaderAddPack r (pack (heap w r))] else [])
             \<and> start w key d = bootScene w' r))"
proof -
  have c1: "START \<le> status (heap w r) \<and> status (heap w r) \<le> CREATING \<longrightarrow> start w key d = w"
    using assms by (simp add: start_def Let_def)
  have c2: "RUNNING \<le> status (heap w r) \<and> status (heap w r) \<le> SLEEPING \<longrightarrow>
          (\<exists>w'. status (heap w' r) = START \<and> settings_data (heap w' r) = default_data d
             \<and> trace w' = trace w @ [SysShutdown r Undefined, SysStart r (default_data d)]
             \<and> start w key d = bootScene w' r)"
  proof
    assume a: "RUNNING \<le> status (heap w r) \<and> status (heap w r) \<le> SLEEPING"
    let ?w' = "sys_start (upd_scene r (\<lambda>s. s\<lparr>sceneUpdate := False\<rparr>)
                 (sys_shutdown w r Undefined)) r (default_data d)"
    from a have n: "(START \<le> status (heap w r) \<and> status (heap w r) \<le> CREATING) = False"
      by (simp add: CONST_defs)
    have "start w key d = bootScene ?w' r"
      using assms a by (simp add: start_def Let_def n)
    moreover have "status (heap ?w' r) = START" "settings_data (heap ?w' r) = default_data d"
      "trace ?w' = trace w @ [SysShutdown r Undefined, SysStart r (default_data d)]"
      by (simp_all add: sys_defs)
    ultimately show "\<exists>w'. status (heap w' r) = START \<and> settings_data (heap w' r) = default_data d
             \<and> trace w' = trace w @ [SysShutdown r Undefined, SysStart r (default_data d)]
             \<and> start w key d = bootScene w' r"
      by blast
  qed
  have c3: "\<not> (START \<le> status (heap w r) \<and> status (heap w r) \<le> SLEEPING)
          \<and> load (heap w r) \<and> pack (heap w r) \<noteq> None \<and> addPack_result (heap w r) \<longrightarrow>
          status (heap (start w key d) r) = LOADING
          \<and> settings_data (heap (start w key d) r) = default_data d
          \<and> trace (start w key d) = trace w @
               [SysStart r (default_data d), LoaderReset r, LoaderAddPack r (pack (heap w r)),
                LoaderOnce r PayloadComplete, LoaderStart r]
          \<and> payloadComplete (start w key d) r = bootScene (start w key d) r"
  proof
    assume a: "\<not> (START \<le> status (heap w r) \<and> status (heap w r) \<le> SLEEPING)
          \<and> load (heap w r) \<and> pack (heap w r) \<noteq> None \<and> addPack_result (heap w r)"
    then have n: "(START \<le> status (heap w r) \<and> status (heap w r) \<le> CREATING) = False"
      "(RUNNING \<le> status (heap w r) \<and> status (heap w r) \<le> SLEEPING) = False"
      by (auto simp: CONST_defs)
    show "status (heap (start w key d) r) = LOADING
          \<and> settings_data (heap (start w key d) r) = default_data d
          \<and> trace (start w key d) = trace w @
               [SysStart r (default_data d), LoaderReset r, LoaderAddPack r (pack (heap w r)),
                LoaderOnce r PayloadComplete, LoaderStart r]
          \<and> payloadComplete (start w key d) r = bootScene (start w key d) r"
      using assms a by (simp add: start_def Let_def n sys_defs payloadComplete_def)
  qed
  have c4: "\<not> (START \<le> status (heap w r) \<and> status (heap w r) \<le> SLEEPING)
          \<and> \<not> (load (heap w r) \<and> pack (heap w r) \<noteq> None \<and> addPack_result (heap w r)) \<longrightarrow>
          (\<exists>w'. status (heap w' r) = START \<and> settings_data (heap w' r) = default_data d
             \<and> trace w' = trace w @ SysStart r (default_data d) #
                  (if load (heap w r) \<and> pack (heap w r) \<noteq> None
                   then [LoaderReset r, LoaderAddPack r (pack (heap w r))] else [])
             \<and> start w key d = bootScene w' r)"
  proof
    assume a: "\<not> (START \<le> status (heap w r) \<and> status (heap w r) \<le> SLEEPING)
          \<and> \<not> (load (heap w r) \<and> pack (heap w r) \<noteq> None \<and> addPack_result (heap w r))"
    from start_idle_boot[OF assms a, of d] obtain w' where
      w': "heap w' r = (heap w r)\<lparr>status := START, settings_data := default_data d,
                                   sceneUpdate := False\<rparr>"
          "trace w' = trace w @ SysStart r (default_data d) #
                  (if load (heap w r) \<and> pack (heap w r) \<noteq> None
                   then [LoaderReset r, LoaderAddPack r (pack (heap w r))] else [])"
          "start w key d = bootScene w' r"
      by blast
    from w'(1) have "status (heap w' r) = START" "settings_data (heap w' r) = default_data d"
      by simp_all
    with w'(2,3) show "\<exists>w'. status (heap w' r) = START \<and> settings_data (heap w' r) = default_data d
             \<and> trace w' = trace w @ SysStart r (default_data d) #
                  (if load (heap w r) \<and> pack (heap w r) \<noteq> None
                   then [LoaderReset r, LoaderAddPack r (pack (heap w r))] else [])
             \<and> start w key d = bootScene w' r"
      by blast
  qed
  from c1 c2 c3 c4 show ?thesis by blast
qed

lemmas boot_defs = bootScene_def create_def

text \<open>
  Claim C3 as stated: scene A is running, declares a pack and has a loader that accepts
  it, yet \<^verbatim>\<open>start('A', data)\<close> boots it at once (\<^verbatim>\<open>init\<close> and \<^verbatim>\<open>create\<close> are called, the status
  ends RUNNING, \<^verbatim>\<open>addPack\<close> is never called). Scene C is idle and declares a pack that the
  loader rejects: it is booted at once too.
\<close>

theorem start_pack_counterexample:
  "isBooted world_packed \<and> getScene world_packed (Str ''A'') = Some 0
   \<and> status (heap world_packed 0) = RUNNING \<and> pack (heap world_packed 0) = Some 1
   \<and> load (heap world_packed 0) \<and> addPack_result (heap world_packed 0)
   \<and> status (heap (start world_packed (Str ''A'') (Obj 5)) 0) = RUNNING
   \<and> trace (start world_packed (Str ''A'') (Obj 5)) =
       [SysShutdown 0 Undefined, SysStart 0 (Obj 5), CallInit 0 (Obj 5), LoaderReset 0,
        CallCreate 0 (Obj 5), Emit 0 CREATE]
   \<and> getScene world_packed (Str ''C'') = Some 2
   \<and> status (heap world_packed 2) = INIT \<and> pack (heap world_packed 2) = Some 3
   \<and> load (heap world_packed 2) \<and> \<not> addPack_result (heap world_packed 2)
   \<and> status (heap (start world_packed (Str ''C'') (Obj 5)) 2) = RUNNING
   \<and> trace (start world_packed (Str ''C'') (Obj 5)) =
       [SysStart 2 (Obj 5), LoaderReset 2, LoaderAddPack 2 (Some 3), CallInit 2 (Obj 5),
        LoaderReset 2, CallCreate 2 (Obj 5), Emit 2 CREATE]"
  by (simp add: start_def boot_defs sys_defs world_packed_def world_ABC_def plain_scene_def
      getScene_def default_data_def CONST_defs Let_def)

text \<open>The four cases of the theorem at example worlds.\<close>

theorem start_dispatch_witness:
  "start world_loading (Str ''B'') Undefined = world_loading
   \<and> (\<exists>w'. status (heap w' 0) = START \<and> settings_data (heap w' 0) = Obj 5
          \<and> trace w' = [SysShutdown 0 Undefined, SysStart 0 (Obj 5)]
          \<and> start world_ABC (Str ''A'') (Obj 5) = bootScene w' 0)
   \<and> status (heap (start world_packed (Str ''B'') (Obj 5)) 1) = LOADING
   \<and> trace (start world_packed (Str ''B'') (Obj 5)) =
        [SysStart 1 (Obj 5), LoaderReset 1, LoaderAddPack 1 (Some 2),
         LoaderOnce 1 PayloadComplete, LoaderStart 1]
   \<and> (\<exists>w'. status (heap w' 2) = START \<and> settings_data (heap w' 2) = Obj 5
          \<and> trace w' = [SysStart 2 (Obj 5), LoaderReset 2, LoaderAddPack 2 (Some 3)]
          \<and> start world_packed (Str ''C'') (Obj 5) = bootScene w' 2)"
proof -
  have h1: "isBooted world_loading" "getScene world_loading (Str ''B'') = Some 1"
    "START \<le> status (heap world_loading 1) \<and> status (heap world_loading 1) \<le> CREATING"
    by (simp_all add: world_loading_def world_ABC_def getScene_def plain_scene_def CONST_defs)
  have h2: "isBooted world_ABC" "getScene world_ABC (Str ''A'') = Some 0"
    "RUNNING \<le> status (heap world_ABC 0) \<and> status (heap world_ABC 0) \<le> SLEEPING"
    "trace world_ABC = []"
    by (simp_all add: world_ABC_def getScene_def plain_scene_def CONST_defs)
  have h3: "isBooted world_packed" "getScene world_packed (Str ''B'') = Some 1"
    "\<not> (START \<le> status (heap world_packed 1) \<and> status (heap world_packed 1) \<le> SLEEPING)
     \<and> load (heap world_packed 1) \<and> pack (heap world_packed 1) \<noteq> None
     \<and> addPack_result (heap world_packed 1)"
    "trace world_packed = []" "pack (heap world_packed 1) = Some 2"
    by (simp_all add: world_packed_def world_ABC_def getScene_def plain_scene_def CONST_defs)
  have h4: "getScene world_packed (Str ''C'') = Some 2"
    "\<not> (START \<le> status (heap world_packed 2) \<and> status (heap world_packed 2) \<le> SLEEPING)
     \<and> \<not> (load (heap world_packed 2) \<and> pack (heap world_packed 2) \<noteq> None
          \<and> addPack_result (heap world_packed 2))"
    "load (heap world_packed 2) \<and> pack (heap world_packed 2) \<noteq> None"
    "pack (heap world_packed 2) = Some 3"
    by (simp_all add: world_packed_def world_ABC_def getScene_def plain_scene_def CONST_defs)
  have d: "default_data Undefined = empty_obj" "default_data (Obj 5) = Obj 5"
    by (simp_all add: default_data_def)
  from start_dispatch[OF h1(1,2), of Undefined] h1(3)
  have a1: "start world_loading (Str ''B'') Undefined = world_loading" by blast
  from start_dispatch[OF h2(1,2), of "Obj 5"] h2(3,4) d
  have a2: "\<exists>w'. status (heap w' 0) = START \<and> settings_data (heap w' 0) = Obj 5
          \<and> trace w' = [SysShutdown 0 Undefined, SysStart 0 (Obj 5)]
          \<and> start world_ABC (Str ''A'') (Obj 5) = bootScene w' 0" by simp
  from start_dispatch[OF h3(1,2), of "Obj 5"] h3(3,4,5) d
  have a3: "status (heap (start world_packed (Str ''B'') (Obj 5)) 1) = LOADING
   \<and> trace (start world_packed (Str ''B'') (Obj 5)) =
        [SysStart 1 (Obj 5), LoaderReset 1, LoaderAddPack 1 (Some 2),
         LoaderOnce 1 PayloadComplete, LoaderStart 1]" by simp
  from start_dispatch[OF h3(1) h4(1), of "Obj 5"] h4(2,3,4) h3(4) d
  have a4: "\<exists>w'. status (heap w' 2) = START \<and> settings_data (heap w' 2) = Obj 5
          \<and> trace w' = [SysStart 2 (Obj 5), LoaderReset 2, LoaderAddPack 2 (Some 3)]
          \<and> start world_packed (Str ''C'') (Obj 5) = bootScene w' 2" by simp
  from a1 a2 a3 a4 show ?thesis by blast
qed

subsection \<open>What booting a scene touches\<close>

lemma same_manager_refl [simp]: "same_manager w w"
  by (simp add: same_manager_def)

lemma same_manager_trans: "same_manager w w1 \<Longrightarrow> same_manager w1 w2 \<Longrightarrow> same_manager w w2"
  by (simp add: same_manager_def)

lemma same_manager_emit [simp]: "same_manager w (emit e w)"
  by (simp add: same_manager_def emit_def)

lemma same_manager_upd [simp]: "same_manager w (upd_scene r f w)"
  by (simp add: same_manager_def upd_scene_def)

lemma same_manager_emit': "same_manager w w1 \<Longrightarrow> same_manager w (emit e w1)"
  by (simp add: same_manager_def emit_def)

lemma same_manager_upd': "same_manager w w1 \<Longrightarrow> same_manager w (upd_scene r f w1)"
  by (simp add: same_manager_def upd_scene_def)

lemma heap_emit [simp]: "heap (emit e w) = heap w"
  by (simp add: emit_def)

lemma trace_emit [simp]: "trace (emit e w) = trace w @ [e]"
  by (simp add: emit_def)

lemma heap_upd_same [simp]: "heap (upd_scene r f w) r = f (heap w r)"
  by (simp add: upd_scene_def)

lemma heap_upd_other [simp]: "r' \<noteq> r \<Longrightarrow> heap (upd_scene r f w) r' = heap w r'"
  by (simp add: upd_scene_def)

lemma trace_upd [simp]: "trace (upd_scene r f w) = trace w"
  by (simp add: upd_scene_def)

lemma same_manager_create: "same_manager w (create w r)"
  by (simp add: create_def Let_def same_manager_emit' same_manager_upd')

lemma same_manager_bootScene: "same_manager w (bootScene w r)"
proof -
  have "\<And>w1. same_manager w w1 \<Longrightarrow> same_manager w (create w1 r)"
    using same_manager_create same_manager_trans by blast
  then show ?thesis
    by (simp add: bootScene_def Let_def same_manager_emit' same_manager_upd')
qed

lemma same_manager_sys:
  "same_manager w (sys_init w r)" "same_manager w (sys_start w r d)"
  "same_manager w (sys_shutdown w r d)" "same_manager w (sys_pause w r d)"
  "same_manager w (sys_resume w r d)" "same_manager w (sys_sleep w r d)"
  "same_manager w (sys_wake w r d)" "same_manager w (sys_destroy w r)"
  by (simp_all add: sys_init_def sys_start_def sys_shutdown_def sys_pause_def sys_resume_def
      sys_sleep_def sys_wake_def sys_destroy_def same_manager_emit' same_manager_upd')

lemma same_manager_start: "isBooted w \<Longrightarrow> same_manager w (start w key d)"
proof -
  assume b: "isBooted w"
  have boot: "\<And>w1. same_manager w w1 \<Longrightarrow> same_manager w (bootScene w1 r)" for r
    using same_manager_bootScene same_manager_trans by blast
  have st: "\<And>w1 d. same_manager w w1 \<Longrightarrow> same_manager w (sys_start w1 r d)" for r
    using same_manager_sys(2) same_manager_trans by blast
  have sh: "\<And>w1 d. same_manager w w1 \<Longrightarrow> same_manager w (sys_shutdown w1 r d)" for r
    using same_manager_sys(3) same_manager_trans by blast
  show ?thesis using b
    by (simp add: start_def Let_def boot st sh same_manager_emit' same_manager_upd'
        split: option.split)
qed










subsection \<open>Switching\<close>








subsection \<open>The flush\<close>

lemma same_flow_refl [simp]: "same_flow w w"
  by (simp add: same_flow_def)


lemma same_manager_flow: "same_manager w w' \<Longrightarrow> same_flow w w'"
  by (simp add: same_manager_def same_flow_def)

lemma same_flow_start: "same_flow w (start w key d)"
proof (cases "isBooted w")
  case True
  then show ?thesis by (simp add: same_manager_start same_manager_flow)
next
  case False
  then show ?thesis by (simp add: start_def Let_def same_flow_def)
qed

lemma u_start_start: "u_start (start w key d) = u_start w"
proof (cases "isBooted w")
  case True
  from same_manager_start[OF this, of key d] show ?thesis by (simp add: same_manager_def)
next
  case False
  then show ?thesis by (simp add: start_def Let_def)
qed








lemma start_loop_fold:
  "start_loop i w = Some (fold (\<lambda>k w'. start w' (Str k) Undefined) (drop i (u_start w)) w)"
proof (induction "length (u_start w) - i" arbitrary: i w)
  case 0
  then show ?case by (subst start_loop.simps) simp
next
  case (Suc n)
  then have lt: "i < length (u_start w)" by simp
  let ?w' = "start w (Str (u_start w ! i)) Undefined"
  have us: "u_start ?w' = u_start w" by (rule u_start_start)
  have "n = length (u_start ?w') - Suc i" using Suc.hyps(2) us by simp
  from Suc.hyps(1)[OF this]
  have "start_loop (Suc i) ?w'
        = Some (fold (\<lambda>k w'. start w' (Str k) Undefined) (drop (Suc i) (u_start w)) ?w')"
    using us by simp
  moreover have "drop i (u_start w) = u_start w ! i # drop (Suc i) (u_start w)"
    using lt by (simp add: Cons_nth_drop_Suc)
  ultimately show ?case using lt by (subst start_loop.simps) simp
qed


lemma same_flowD:
  "same_flow w w' \<Longrightarrow> isBooted w' = isBooted w \<and> isProcessing w' = isProcessing w
     \<and> u_queue w' = u_queue w \<and> u_pending w' = u_pending w"
  by (simp add: same_flow_def)

lemma flow_start [simp]:
  "isBooted (start w k d) = isBooted w" "isProcessing (start w k d) = isProcessing w"
  "u_queue (start w k d) = u_queue w" "u_pending (start w k d) = u_pending w"
  using same_flow_start[of w k d, THEN same_flowD] by simp_all

lemma flow_sys_init [simp]:
  "isBooted (sys_init w r) = isBooted w" "isProcessing (sys_init w r) = isProcessing w"
  "u_queue (sys_init w r) = u_queue w" "u_pending (sys_init w r) = u_pending w"
  by (simp_all add: sys_init_def upd_scene_def emit_def)

lemma flow_upd_scene [simp]:
  "isBooted (upd_scene r f w) = isBooted w" "isProcessing (upd_scene r f w) = isProcessing w"
  "u_queue (upd_scene r f w) = u_queue w" "u_pending (upd_scene r f w) = u_pending w"
  by (simp_all add: upd_scene_def)

lemma flow_createSceneFromInstance [simp]:
  "isBooted (createSceneFromInstance w k r) = isBooted w"
  "isProcessing (createSceneFromInstance w k r) = isProcessing w"
  "u_queue (createSceneFromInstance w k r) = u_queue w"
  "u_pending (createSceneFromInstance w k r) = u_pending w"
  by (simp_all add: createSceneFromInstance_def Let_def)

lemma flow_createSceneFromObject [simp]:
  "isBooted (snd (createSceneFromObject w k ok s)) = isBooted w"
  "isProcessing (snd (createSceneFromObject w k ok s)) = isProcessing w"
  "u_queue (snd (createSceneFromObject w k ok s)) = u_queue w"
  "u_pending (snd (createSceneFromObject w k ok s)) = u_pending w"
  by (simp_all add: createSceneFromObject_def Scene_from_config_def new_scene_def Let_def)

lemma same_flow_createSceneFromFunction:
  "createSceneFromFunction w k cfg = Inr (r, w1) \<Longrightarrow> same_flow w w1"
  by (cases cfg)
     (auto simp: createSceneFromFunction_def new_scene_def Let_def same_flow_def
        split: if_splits)




text \<open>The definitions a concrete flush unfolds.\<close>

lemmas model_defs = add_def getKey_def createSceneFromInstance_def createSceneFromObject_def
  Scene_from_config_def
  createSceneFromFunction_def new_scene_def dispatch_def remove_def queueOp_def
  bringToTop_def start_def boot_defs sys_defs array_defs default_data_def empty_obj_def
  CONST_defs Let_def


subsection \<open>Deferred removal\<close>














subsection \<open>The frame\<close>





subsection \<open>Duplicate keys\<close>

text \<open>
  Claim C2 at two failing inputs. In \<open>world_ABC\<close> the key A is taken by the scene 0.
  Adding, under the key A, a function whose \<^verbatim>\<open>new\<close> yields an object that is no Scene
  raises nothing: \<^verbatim>\<open>getKey\<close> returns before its duplicate test for every function, and
  \<^verbatim>\<open>createSceneFromFunction\<close> repeats the test only for a Scene. The new scene 3 replaces
  scene 0 in the key table, and both stay in the array under the same key. At the first
  boot of \<open>world_unbooted\<close> the two descriptors with the key A are both admitted, as the
  scenes 1 and 2 (the system scene is 0): \<^verbatim>\<open>bootQueue\<close> never calls \<^verbatim>\<open>getKey\<close>. The key table
  keeps the second one, which is then started in place of the first.
\<close>

theorem duplicate_key_admitted:
  "keys world_ABC ''A'' = Some 0
   \<and> (case add world_ABC ''A'' (PlainFunction (plain_scene [] PENDING)) False Undefined of
         Inl e \<Rightarrow> False
       | Inr (r, w') \<Rightarrow> r = Some 3 \<and> keys w' ''A'' = Some 3
                        \<and> scenes w' = [Some 0, Some 1, Some 2, Some 3]
                        \<and> settings_key (heap w' 0) = ''A'' \<and> settings_key (heap w' 3) = ''A'')
   \<and> (case bootQueue (plain_scene [] PENDING) world_unbooted of
         Some (Inr w') \<Rightarrow> scenes w' = [Some 1, Some 2] \<and> keys w' ''A'' = Some 2
            \<and> settings_key (heap w' 1) = ''A'' \<and> settings_key (heap w' 2) = ''A''
            \<and> status (heap w' 1) = INIT \<and> status (heap w' 2) = RUNNING \<and> isBooted w'
       | _ \<Rightarrow> False)"
proof -
  have a: "keys world_ABC ''A'' = Some 0" by (simp add: world_ABC_def)
  have b: "case add world_ABC ''A'' (PlainFunction (plain_scene [] PENDING)) False Undefined of
         Inl e \<Rightarrow> False
       | Inr (r, w') \<Rightarrow> r = Some 3 \<and> keys w' ''A'' = Some 3
                        \<and> scenes w' = [Some 0, Some 1, Some 2, Some 3]
                        \<and> settings_key (heap w' 0) = ''A'' \<and> settings_key (heap w' 3) = ''A''"
    by (simp add: add_def getKey_def createSceneFromFunction_def new_scene_def sys_init_def
        upd_scene_def emit_def world_ABC_def plain_scene_def default_data_def Let_def)
  have c: "case bootQueue (plain_scene [] PENDING) world_unbooted of
         Some (Inr w') \<Rightarrow> scenes w' = [Some 1, Some 2] \<and> keys w' ''A'' = Some 2
            \<and> settings_key (heap w' 1) = ''A'' \<and> settings_key (heap w' 2) = ''A''
            \<and> status (heap w' 1) = INIT \<and> status (heap w' 2) = RUNNING \<and> isBooted w'
       | _ \<Rightarrow> False"
    by (simp add: bootQueue_def boot_entry_def start_loop_fold world_unbooted_def
        plain_scene_def model_defs)
  from a b c show ?thesis by (intro conjI)
qed

text \<open>
  The other shapes do raise, and leave scenes and keys as they were: a Scene instance,
  a descriptor object, and a function whose \<^verbatim>\<open>new\<close> yields a Scene with a key.
\<close>

lemma add_duplicate_key_throws:
  assumes "\<not> isProcessing w" "isBooted w"
  shows "keys w (settings_key (heap w r)) \<noteq> None \<Longrightarrow>
           add w key (SceneInstance r) autoStart data
             = Inl (DuplicateKey (settings_key (heap w r)), w)"
    and "keys w k \<noteq> None \<Longrightarrow>
           add w key (ConfigObject (Some k) s) autoStart data = Inl (DuplicateKey k, w)"
    and "key \<noteq> [] \<Longrightarrow> keys w key \<noteq> None \<Longrightarrow>
           add w key (ConfigObject None s) autoStart data = Inl (DuplicateKey key, w)"
    and "settings_key s \<noteq> [] \<Longrightarrow> keys w (settings_key s) \<noteq> None \<Longrightarrow>
           \<exists>w'. add w key (SceneClass s) autoStart data = Inl (DuplicateKey (settings_key s), w')
               \<and> scenes w' = scenes w \<and> keys w' = keys w"
  using assms
  by (auto simp: add_def getKey_def createSceneFromFunction_def new_scene_def Let_def)

end
